theory Spec2Isabelle
  imports Main
begin

section \<open>Data model (types.ts)\<close>

datatype GitFileStatus =
  Modified | Added | Deleted | Renamed | Copied | Untracked | Ignored | Conflicted

text \<open>Optional fields of the TypeScript interfaces are \<open>option\<close> values; fields whose
  names occur in several interfaces carry the interface's initials as a prefix.\<close>

record ShelvedFile =
  sf_relativePath :: string
  sf_status :: GitFileStatus
  sf_patch :: string
  sf_originalContent :: "string option"
  sf_headContent :: "string option"
  sf_shelvedAt :: int
  sf_originalPath :: "string option"
  sf_repoPath :: "string option"

record Changelist =
  cl_id :: string
  cl_label :: string
  cl_shelvedFiles :: "ShelvedFile list"
  cl_isDefault :: bool
  cl_isActive :: bool
  cl_repoPath :: "string option"

record ChangelistState =
  changelists :: "Changelist list"
  activeChangelistId :: string
  version :: int

record ChangedFile =
  cf_absolutePath :: string
  cf_relativePath :: string
  cf_status :: GitFileStatus
  cf_originalPath :: "string option"
  cf_repoPath :: "string option"

text \<open>The part of simple-git's \<open>StatusResult\<close> that \<open>updateChangedFiles\<close> reads:
  \<open>renamed\<close> holds (from, to), \<open>files\<close> holds (path, index, working_dir).\<close>

record StatusResult =
  st_modified :: "string list"
  st_not_added :: "string list"
  st_created :: "string list"
  st_deleted :: "string list"
  st_renamed :: "(string \<times> string) list"
  st_conflicted :: "string list"
  st_files :: "(string \<times> string \<times> string) list"

text \<open>The export/import format: \<open>ie_changelists = None\<close> stands for a missing or
  non-array \<open>changelists\<close> member, an item's \<open>None\<close> for a non-array \<open>shelvedFiles\<close>.\<close>

record ChangelistExport =
  ie_version :: int
  ie_changelists :: "(string \<times> ShelvedFile list option) list option"
  ie_exportedAt :: string

section \<open>Errors\<close>

text \<open>One constructor per \<open>throw new Error(...)\<close> of ChangelistService.ts, named after its
  message; \<open>FsError\<close> and \<open>GitError\<close> are the exceptions of the file-system and
  version-control primitives, which the service passes through.\<close>

datatype error =
    GitNotInitialized
  | DefaultChangelistNotFound
  | ChangelistNotFound string
  | CannotDeleteDefault
  | FileNotFoundInChanges string
  | CannotSaveToDefault
  | FileNotFoundInChangelist string
  | NoFilesInChangelist
  | NoFilesToCommit
  | NoShelvedFilesToCommit
  | FileNotFound string
  | InvalidImportData
  | FsError string
  | GitError string

datatype error_kind = NotFound | InvalidOperation | IOFailure | UnrecoverableCommitState

text \<open>Modelled from the spec: the error kinds of section 7 (the source throws plain
  \<open>Error\<close> objects and has no kinds). NotFound is an unresolvable changelist, changed file
  or snapshot path; InvalidOperation is deleting or shelving to the default changelist and
  committing or applying an empty changelist; failures of the file system and of the
  version-control commands are IOFailure. No throw site of the source produces
  UnrecoverableCommitState.\<close>

fun kind_of :: "error \<Rightarrow> error_kind" where
  "kind_of (ChangelistNotFound _) = NotFound"
| "kind_of (FileNotFoundInChanges _) = NotFound"
| "kind_of (FileNotFoundInChangelist _) = NotFound"
| "kind_of (FileNotFound _) = NotFound"
| "kind_of DefaultChangelistNotFound = NotFound"
| "kind_of CannotDeleteDefault = InvalidOperation"
| "kind_of CannotSaveToDefault = InvalidOperation"
| "kind_of NoFilesInChangelist = InvalidOperation"
| "kind_of NoFilesToCommit = InvalidOperation"
| "kind_of NoShelvedFilesToCommit = InvalidOperation"
| "kind_of InvalidImportData = InvalidOperation"
| "kind_of GitNotInitialized = IOFailure"
| "kind_of (FsError _) = IOFailure"
| "kind_of (GitError _) = IOFailure"

section \<open>The file system and the collaborators\<close>

text \<open>The working tree is a map from absolute paths to nodes. The primitives of Node's
  \<open>fs\<close> module are modelled on it: they raise where the node at the path has the wrong
  kind, and otherwise succeed (permissions and missing parent directories are not
  modelled). A file holds bytes. A string value of the program is represented by the bytes
  of its UTF-8 encoding, which is what \<open>writeFileSync(_, _, 'utf8')\<close> stores;
  \<open>readFileSync(_, 'utf8')\<close> decodes the bytes of the file, and Node's decoder replaces
  every ill-formed sequence by U+FFFD, so that reading a file and writing the result back
  need not give the same bytes. The decoder is the parameter \<open>decode\<close>.\<close>

datatype node = File string | Dir

type_synonym filesystem = "string \<rightharpoonup> node"

definition existsSync :: "filesystem \<Rightarrow> string \<Rightarrow> bool" where
  "existsSync f p = (f p \<noteq> None)"

definition readFileSync :: "(string \<Rightarrow> string) \<Rightarrow> filesystem \<Rightarrow> string \<Rightarrow> error + string" where
  "readFileSync decode f p =
     (case f p of
        Some (File c) \<Rightarrow> Inr (decode c)
      | Some Dir \<Rightarrow> Inl (FsError ''EISDIR'')
      | None \<Rightarrow> Inl (FsError ''ENOENT''))"

definition writeFileSync :: "filesystem \<Rightarrow> string \<Rightarrow> string \<Rightarrow> error + filesystem" where
  "writeFileSync f p c =
     (case f p of
        Some Dir \<Rightarrow> Inl (FsError ''EISDIR'')
      | _ \<Rightarrow> Inr (f(p \<mapsto> File c)))"

definition unlinkSync :: "filesystem \<Rightarrow> string \<Rightarrow> error + filesystem" where
  "unlinkSync f p =
     (case f p of
        Some (File c) \<Rightarrow> Inr (f(p := None))
      | Some Dir \<Rightarrow> Inl (FsError ''EPERM'')
      | None \<Rightarrow> Inl (FsError ''ENOENT''))"

definition mkdirSync :: "filesystem \<Rightarrow> string \<Rightarrow> error + filesystem" where
  "mkdirSync f p =
     (case f p of
        Some (File c) \<Rightarrow> Inl (FsError ''EEXIST'')
      | _ \<Rightarrow> Inr (f(p \<mapsto> Dir)))"

text \<open>Everything the service takes from outside its own code: the repository it was
  constructed for, the configuration, Node's \<open>path\<close> and \<open>crypto\<close> functions, the
  decoder of UTF-8 that \<open>readFileSync(_, 'utf8')\<close> applies, the
  clock and the random source (the n-th draw of \<open>Date.now()\<close> and of \<open>generateId()\<close>),
  and the simple-git commands. The version-control repository is a value of an arbitrary
  type \<open>'g\<close>. Queries return a result or an error message; commands return an optional
  error message together with the repository and the working tree they leave behind.\<close>

record 'g Env =
  repository_path :: string
  repository_name :: string
  workspaceRoot :: "string option"
  saveSnapshotsToFile :: bool
  path_join :: "string list \<Rightarrow> string"
  path_dirname :: "string \<Rightarrow> string"
  path_basename :: "string \<Rightarrow> string"
  getRepoHash :: "string \<Rightarrow> string"
  utf8_decode :: "string \<Rightarrow> string"
  Date_now :: "nat \<Rightarrow> int"
  generateId :: "nat \<Rightarrow> string"
  git_status :: "'g \<Rightarrow> filesystem \<Rightarrow> string + StatusResult"
  git_show :: "'g \<Rightarrow> filesystem \<Rightarrow> string list \<Rightarrow> string + string"
  git_add :: "'g \<Rightarrow> filesystem \<Rightarrow> string list \<Rightarrow> string option \<times> 'g \<times> filesystem"
  git_commit :: "'g \<Rightarrow> filesystem \<Rightarrow> string \<Rightarrow> string option \<times> 'g \<times> filesystem"
  git_stash :: "'g \<Rightarrow> filesystem \<Rightarrow> string list \<Rightarrow> string option \<times> 'g \<times> filesystem"
  git_raw :: "'g \<Rightarrow> filesystem \<Rightarrow> string list \<Rightarrow> string option \<times> 'g \<times> filesystem"
  git_checkout :: "'g \<Rightarrow> filesystem \<Rightarrow> string list \<Rightarrow> string option \<times> 'g \<times> filesystem"

text \<open>The service object together with the world it acts on: \<open>git\<close> is \<open>this.git\<close>
  (\<open>None\<close> for \<open>undefined\<close>), \<open>state\<close> is \<open>this.state\<close>, \<open>changedFiles\<close> is the
  insertion-ordered \<open>Map\<close> of the same name, \<open>fs\<close> the working tree,
  \<open>workspaceState\<close> the extension's key-value store, \<open>firedChangelists\<close> and
  \<open>firedFiles\<close> count the notifications emitted, \<open>draws\<close> counts the calls of the clock
  and of the id generator.\<close>

record 'g Service =
  git :: "'g option"
  state :: ChangelistState
  changedFiles :: "(string \<times> ChangedFile) list"
  fs :: filesystem
  workspaceState :: "string \<rightharpoonup> ChangelistState"
  firedChangelists :: nat
  firedFiles :: nat
  draws :: nat

section \<open>utils.ts\<close>

definition normalizePath :: "string \<Rightarrow> string" where
  "normalizePath filePath = map (\<lambda>c. if c = CHR 0x5C then CHR ''/'' else c) filePath"

fun mapGitStatus :: "string \<Rightarrow> string \<Rightarrow> GitFileStatus" where
  "mapGitStatus index workingDir =
     (if workingDir = ''M'' \<or> index = ''M'' then Modified
      else if workingDir = ''D'' \<or> index = ''D'' then Deleted
      else if workingDir = ''A'' \<or> index = ''A'' then Added
      else if workingDir = ''R'' \<or> index = ''R'' then Renamed
      else if workingDir = ''C'' \<or> index = ''C'' then Copied
      else if workingDir = ''?'' \<or> index = ''?'' then Untracked
      else if workingDir = ''!'' \<or> index = ''!'' then Ignored
      else if workingDir = ''U'' \<or> index = ''U'' then Conflicted
      else Modified)"

definition getAbsolutePathFromRepo :: "'g Env \<Rightarrow> string \<Rightarrow> string \<Rightarrow> string" where
  "getAbsolutePathFromRepo env relativePath repoPath = path_join env [repoPath, relativePath]"

definition getRepoStateKey :: "'g Env \<Rightarrow> string \<Rightarrow> string" where
  "getRepoStateKey env repoPath = ''smartChangelists.state.'' @ getRepoHash env repoPath"

text \<open>JavaScript's \<open>a || b\<close> on an optional string: an absent and an empty string are
  both falsy.\<close>

definition or_else :: "string option \<Rightarrow> string \<Rightarrow> string" where
  "or_else a b = (case a of None \<Rightarrow> b | Some x \<Rightarrow> if x = [] then b else x)"

section \<open>ChangelistService.ts\<close>

definition LEGACY_STATE_KEY :: string where
  "LEGACY_STATE_KEY = ''smartChangelists.state''"

definition STATE_VERSION :: int where
  "STATE_VERSION = 4"

definition SNAPSHOTS_DIR :: string where
  "SNAPSHOTS_DIR = ''.smartchangelists''"

definition stateKey :: "'g Env \<Rightarrow> string" where
  "stateKey env = getRepoStateKey env (repository_path env)"

subsection \<open>Helpers for JavaScript's containers\<close>

text \<open>\<open>Map.prototype.set\<close>: an existing key keeps its position.\<close>

fun Map_set :: "'k \<Rightarrow> 'v \<Rightarrow> ('k \<times> 'v) list \<Rightarrow> ('k \<times> 'v) list" where
  "Map_set k v [] = [(k, v)]"
| "Map_set k v (p # ps) = (if fst p = k then (k, v) # ps else p # Map_set k v ps)"

text \<open>Assigning to a field of the object that \<open>Array.prototype.find\<close> returned: the first
  element satisfying the predicate is changed in place.\<close>

fun update_first :: "('a \<Rightarrow> bool) \<Rightarrow> ('a \<Rightarrow> 'a) \<Rightarrow> 'a list \<Rightarrow> 'a list" where
  "update_first P f [] = []"
| "update_first P f (x # xs) = (if P x then f x # xs else x # update_first P f xs)"

text \<open>\<open>Array.prototype.findIndex\<close>, with \<open>None\<close> for -1.\<close>

fun findIndex :: "('a \<Rightarrow> bool) \<Rightarrow> 'a list \<Rightarrow> nat option" where
  "findIndex P [] = None"
| "findIndex P (x # xs) =
     (if P x then Some 0 else map_option Suc (findIndex P xs))"

subsection \<open>Snapshot mirror files\<close>

definition sanitizeLabel :: "string \<Rightarrow> string" where
  "sanitizeLabel label =
     map (\<lambda>c. if c \<in> set [CHR ''<'', CHR ''>'', CHR '':'', CHR 0x22, CHR ''/'', CHR 0x5C,
                             CHR ''|'', CHR ''?'', CHR ''*'']
               then CHR ''_'' else c) label"

definition getSnapshotFilePath :: "'g Env \<Rightarrow> ShelvedFile \<Rightarrow> Changelist \<Rightarrow> string" where
  "getSnapshotFilePath env shelvedFile changelist =
     (let sanitizedName = sanitizeLabel (cl_label changelist);
          fileName = path_basename env (sf_relativePath shelvedFile)
      in path_join env [repository_path env, SNAPSHOTS_DIR, sanitizedName, fileName])"

definition ensureSnapshotsDir :: "'g Env \<Rightarrow> 'g Service \<Rightarrow> (error + unit) \<times> 'g Service" where
  "ensureSnapshotsDir env s =
     (if \<not> saveSnapshotsToFile env then (Inr (), s)
      else
        let snapshotsDir = path_join env [repository_path env, SNAPSHOTS_DIR] in
        if \<not> existsSync (fs s) snapshotsDir then
          (case mkdirSync (fs s) snapshotsDir of
             Inl e \<Rightarrow> (Inl e, s)
           | Inr f1 \<Rightarrow>
               let gitignorePath = path_join env [snapshotsDir, ''.gitignore''] in
               (case writeFileSync f1 gitignorePath ''*\<newline>!.gitignore\<newline>'' of
                  Inl e \<Rightarrow> (Inl e, s\<lparr>fs := f1\<rparr>)
                | Inr f2 \<Rightarrow> (Inr (), s\<lparr>fs := f2\<rparr>)))
        else (Inr (), s))"

text \<open>\<open>saveSnapshotToFile\<close> and \<open>deleteSnapshotFile\<close> catch and log every exception.\<close>

definition saveSnapshotToFile :: "'g Env \<Rightarrow> ShelvedFile \<Rightarrow> Changelist \<Rightarrow> 'g Service \<Rightarrow> 'g Service" where
  "saveSnapshotToFile env shelvedFile changelist s =
     (if \<not> saveSnapshotsToFile env then s
      else case sf_originalContent shelvedFile of
        None \<Rightarrow> s
      | Some content \<Rightarrow>
          if content = [] then s
          else
            let snapshotPath = getSnapshotFilePath env shelvedFile changelist;
                snapshotDir = path_dirname env snapshotPath
            in case (if \<not> existsSync (fs s) snapshotDir then mkdirSync (fs s) snapshotDir
                     else Inr (fs s)) of
                 Inl e \<Rightarrow> s
               | Inr f1 \<Rightarrow>
                   (case writeFileSync f1 snapshotPath content of
                      Inl e \<Rightarrow> s\<lparr>fs := f1\<rparr>
                    | Inr f2 \<Rightarrow> s\<lparr>fs := f2\<rparr>))"

definition deleteSnapshotFile :: "'g Env \<Rightarrow> ShelvedFile \<Rightarrow> Changelist \<Rightarrow> 'g Service \<Rightarrow> 'g Service" where
  "deleteSnapshotFile env shelvedFile changelist s =
     (if \<not> saveSnapshotsToFile env then s
      else
        let snapshotPath = getSnapshotFilePath env shelvedFile changelist in
        if existsSync (fs s) snapshotPath then
          (case unlinkSync (fs s) snapshotPath of
             Inl e \<Rightarrow> s
           | Inr f1 \<Rightarrow> s\<lparr>fs := f1\<rparr>)
        else s)"

subsection \<open>Loading and saving the state\<close>

definition saveState :: "'g Env \<Rightarrow> ChangelistState \<Rightarrow> 'g Service \<Rightarrow> 'g Service" where
  "saveState env stateToSave s =
     s\<lparr>workspaceState := (workspaceState s)(stateKey env \<mapsto> stateToSave)\<rparr>"

definition tryMigrateLegacyState :: "'g Env \<Rightarrow> 'g Service \<Rightarrow> ChangelistState option" where
  "tryMigrateLegacyState env s =
     (case workspaceState s LEGACY_STATE_KEY of
        None \<Rightarrow> None
      | Some legacyState \<Rightarrow>
          (case workspaceRoot env of
             None \<Rightarrow> None
           | Some root \<Rightarrow>
               if root = [] \<or> normalizePath (repository_path env) \<noteq> normalizePath root
               then None
               else
                 Some \<lparr>changelists =
                         map (\<lambda>cl. cl\<lparr>cl_repoPath := Some (repository_path env),
                                       cl_shelvedFiles :=
                                         map (\<lambda>sf. sf\<lparr>sf_repoPath := Some (repository_path env)\<rparr>)
                                           (cl_shelvedFiles cl)\<rparr>)
                           (changelists legacyState),
                       activeChangelistId = activeChangelistId legacyState,
                       version = STATE_VERSION\<rparr>))"

definition upgradeState :: "'g Env \<Rightarrow> ChangelistState \<Rightarrow> ChangelistState" where
  "upgradeState env oldState =
     \<lparr>changelists =
        map (\<lambda>cl. cl\<lparr>cl_repoPath := Some (or_else (cl_repoPath cl) (repository_path env)),
                      cl_shelvedFiles :=
                        map (\<lambda>sf. sf\<lparr>sf_repoPath :=
                                        Some (or_else (sf_repoPath sf) (repository_path env))\<rparr>)
                          (cl_shelvedFiles cl)\<rparr>)
          (changelists oldState),
      activeChangelistId = activeChangelistId oldState,
      version = STATE_VERSION\<rparr>"

text \<open>\<open>loadState\<close> returns the state and, where it saves, leaves the store updated.\<close>

definition loadState :: "'g Env \<Rightarrow> 'g Service \<Rightarrow> ChangelistState \<times> 'g Service" where
  "loadState env s =
     (let stored = workspaceState s (stateKey env) in
      if (case stored of Some st \<Rightarrow> version st = STATE_VERSION | None \<Rightarrow> False)
      then (the stored, s)
      else
        (case tryMigrateLegacyState env s of
           Some migratedState \<Rightarrow> (migratedState, saveState env migratedState s)
         | None \<Rightarrow>
             if (case stored of Some st \<Rightarrow> version st < STATE_VERSION | None \<Rightarrow> False)
             then
               (let upgradedState = upgradeState env (the stored)
                in (upgradedState, saveState env upgradedState s))
             else
               (let defaultId = generateId env (draws s);
                    defaultState =
                      \<lparr>changelists =
                         [\<lparr>cl_id = defaultId, cl_label = ''Default Changelist'',
                           cl_shelvedFiles = [], cl_isDefault = True, cl_isActive = True,
                           cl_repoPath = Some (repository_path env)\<rparr>],
                       activeChangelistId = defaultId,
                       version = STATE_VERSION\<rparr>
                in (defaultState, saveState env defaultState (s\<lparr>draws := Suc (draws s)\<rparr>)))))"

text \<open>The constructor, given the repository handle that \<open>simpleGit\<close> returns, the working
  tree and the extension's store. \<open>setupWatchers\<close> only registers callbacks. An exception
  of \<open>ensureSnapshotsDir\<close> leaves no service object.\<close>

definition constructor ::
  "'g Env \<Rightarrow> 'g \<Rightarrow> filesystem \<Rightarrow> (string \<rightharpoonup> ChangelistState) \<Rightarrow> (error + unit) \<times> 'g Service" where
  "constructor env g f ws =
     (let s0 = \<lparr>git = None, state = \<lparr>changelists = [], activeChangelistId = [], version = 0\<rparr>,
                changedFiles = [], fs = f, workspaceState = ws,
                firedChangelists = 0, firedFiles = 0, draws = 0\<rparr>;
          (st, s1) = loadState env s0;
          s2 = s1\<lparr>state := st\<rparr>;
          s3 = s2\<lparr>git := Some g\<rparr>
      in ensureSnapshotsDir env s3)"

subsection \<open>Refreshing the changed files\<close>

definition processFile ::
  "'g Env \<Rightarrow> string \<Rightarrow> GitFileStatus \<Rightarrow> string option \<Rightarrow> (string \<times> ChangedFile) list
     \<Rightarrow> (string \<times> ChangedFile) list" where
  "processFile env filePath gitStatus originalPath m =
     (let relativePath = normalizePath filePath;
          absolutePath = getAbsolutePathFromRepo env relativePath (repository_path env)
      in Map_set relativePath
           \<lparr>cf_absolutePath = absolutePath, cf_relativePath = relativePath,
            cf_status = gitStatus,
            cf_originalPath =
              (case originalPath of
                 None \<Rightarrow> None
               | Some p \<Rightarrow> if p = [] then None else Some (normalizePath p)),
            cf_repoPath = Some (repository_path env)\<rparr> m)"

definition updateChangedFiles :: "'g Env \<Rightarrow> StatusResult \<Rightarrow> (string \<times> ChangedFile) list" where
  "updateChangedFiles env status =
     (let m0 = [];
          m1 = fold (\<lambda>f. processFile env f Modified None) (st_modified status) m0;
          m2 = fold (\<lambda>f. processFile env f Untracked None) (st_not_added status) m1;
          m3 = fold (\<lambda>f. processFile env f Added None) (st_created status) m2;
          m4 = fold (\<lambda>f. processFile env f Deleted None) (st_deleted status) m3;
          m5 = fold (\<lambda>(from, to). processFile env to Renamed (Some from)) (st_renamed status) m4;
          m6 = fold (\<lambda>f. processFile env f Conflicted None) (st_conflicted status) m5
      in fold (\<lambda>(p, index, working_dir) m.
                 if map_of m (normalizePath p) = None
                 then processFile env p (mapGitStatus index working_dir) None m
                 else m)
           (st_files status) m6)"

text \<open>\<open>refresh\<close> never throws: a failing \<open>git.status()\<close> is caught and logged.\<close>

definition refresh :: "'g Env \<Rightarrow> 'g Service \<Rightarrow> 'g Service" where
  "refresh env s =
     (case git s of
        None \<Rightarrow> s
      | Some g \<Rightarrow>
          (case git_status env g (fs s) of
             Inl msg \<Rightarrow> s
           | Inr status \<Rightarrow>
               s\<lparr>changedFiles := updateChangedFiles env status,
                 firedFiles := Suc (firedFiles s)\<rparr>))"

definition fireChangelists :: "'g Service \<Rightarrow> 'g Service" where
  "fireChangelists s = s\<lparr>firedChangelists := Suc (firedChangelists s)\<rparr>"

subsection \<open>Changelist CRUD operations\<close>

definition getChangelist :: "'g Service \<Rightarrow> string \<Rightarrow> Changelist option" where
  "getChangelist s ident = find (\<lambda>cl. cl_id cl = ident) (changelists (state s))"

definition getDefaultChangelist :: "'g Service \<Rightarrow> error + Changelist" where
  "getDefaultChangelist s =
     (case find cl_isDefault (changelists (state s)) of
        None \<Rightarrow> Inl DefaultChangelistNotFound
      | Some defaultCl \<Rightarrow> Inr defaultCl)"

definition getActiveChangelist :: "'g Service \<Rightarrow> error + Changelist" where
  "getActiveChangelist s =
     (case find cl_isActive (changelists (state s)) of
        Some activeCl \<Rightarrow> Inr activeCl
      | None \<Rightarrow> getDefaultChangelist s)"

text \<open>Replacing \<open>this.state.changelists\<close>, and mutating the changelist object that
  \<open>getChangelist(id)\<close> returned.\<close>

definition set_changelists :: "Changelist list \<Rightarrow> 'g Service \<Rightarrow> 'g Service" where
  "set_changelists cls s = s\<lparr>state := (state s)\<lparr>changelists := cls\<rparr>\<rparr>"

definition mutate_changelist :: "string \<Rightarrow> (Changelist \<Rightarrow> Changelist) \<Rightarrow> 'g Service \<Rightarrow> 'g Service" where
  "mutate_changelist ident f s =
     set_changelists (update_first (\<lambda>cl. cl_id cl = ident) f (changelists (state s))) s"

definition createChangelist :: "'g Env \<Rightarrow> string \<Rightarrow> 'g Service \<Rightarrow> (error + Changelist) \<times> 'g Service" where
  "createChangelist env label s =
     (let ident = generateId env (draws s);
          s1 = s\<lparr>draws := Suc (draws s)\<rparr>;
          changelist = \<lparr>cl_id = ident, cl_label = label, cl_shelvedFiles = [],
                        cl_isDefault = False, cl_isActive = False,
                        cl_repoPath = Some (repository_path env)\<rparr>;
          s2 = set_changelists (changelists (state s1) @ [changelist]) s1;
          s3 = saveState env (state s2) s2
      in (Inr changelist, fireChangelists s3))"

definition renameChangelist :: "'g Env \<Rightarrow> string \<Rightarrow> string \<Rightarrow> 'g Service \<Rightarrow> (error + unit) \<times> 'g Service" where
  "renameChangelist env ident newLabel s =
     (case getChangelist s ident of
        None \<Rightarrow> (Inl (ChangelistNotFound ident), s)
      | Some changelist \<Rightarrow>
          (let s1 = mutate_changelist ident (\<lambda>cl. cl\<lparr>cl_label := newLabel\<rparr>) s;
               s2 = saveState env (state s1) s1
           in (Inr (), fireChangelists s2)))"

definition setActiveChangelist :: "'g Env \<Rightarrow> string \<Rightarrow> 'g Service \<Rightarrow> (error + unit) \<times> 'g Service" where
  "setActiveChangelist env ident s =
     (case getChangelist s ident of
        None \<Rightarrow> (Inl (ChangelistNotFound ident), s)
      | Some changelist \<Rightarrow>
          (let s1 = set_changelists (map (\<lambda>cl. cl\<lparr>cl_isActive := False\<rparr>) (changelists (state s))) s;
               s2 = mutate_changelist ident (\<lambda>cl. cl\<lparr>cl_isActive := True\<rparr>) s1;
               s3 = s2\<lparr>state := (state s2)\<lparr>activeChangelistId := ident\<rparr>\<rparr>;
               s4 = saveState env (state s3) s3
           in (Inr (), fireChangelists s4)))"

subsection \<open>Restoring snapshots\<close>

text \<open>Awaiting a simple-git command: the repository and the working tree are as the
  command left them, and a failure is thrown as the command's error.\<close>

definition run_git ::
  "('g \<Rightarrow> filesystem \<Rightarrow> string option \<times> 'g \<times> filesystem) \<Rightarrow> 'g Service
     \<Rightarrow> (error + unit) \<times> 'g Service" where
  "run_git cmd s =
     (case git s of
        None \<Rightarrow> (Inl GitNotInitialized, s)
      | Some g \<Rightarrow>
          (case cmd g (fs s) of
             (m, g', f') \<Rightarrow>
               ((case m of None \<Rightarrow> Inr () | Some msg \<Rightarrow> Inl (GitError msg)),
                s\<lparr>git := Some g', fs := f'\<rparr>)))"

definition unshelveFileInternal ::
  "'g Env \<Rightarrow> ShelvedFile \<Rightarrow> 'g Service \<Rightarrow> (error + unit) \<times> 'g Service" where
  "unshelveFileInternal env shelvedFile s =
     (let repoPath = or_else (sf_repoPath shelvedFile) (repository_path env);
          absolutePath = getAbsolutePathFromRepo env (sf_relativePath shelvedFile) repoPath
      in
        if sf_status shelvedFile = Deleted then
          (if existsSync (fs s) absolutePath then
             (case unlinkSync (fs s) absolutePath of
                Inl e \<Rightarrow> (Inl e, s)
              | Inr f1 \<Rightarrow> (Inr (), s\<lparr>fs := f1\<rparr>))
           else (Inr (), s))
        else
          (case sf_originalContent shelvedFile of
             Some content \<Rightarrow>
               (let dir = path_dirname env absolutePath in
                (case (if \<not> existsSync (fs s) dir then mkdirSync (fs s) dir else Inr (fs s)) of
                   Inl e \<Rightarrow> (Inl e, s)
                 | Inr f1 \<Rightarrow>
                     (case writeFileSync f1 absolutePath content of
                        Inl e \<Rightarrow> (Inl e, s\<lparr>fs := f1\<rparr>)
                      | Inr f2 \<Rightarrow> (Inr (), s\<lparr>fs := f2\<rparr>))))
           | None \<Rightarrow>
               if sf_patch shelvedFile \<noteq> [] then
                 (case git s of
                    None \<Rightarrow> (Inl GitNotInitialized, s)
                  | Some g \<Rightarrow>
                      (let patchPath =
                             path_join env [repository_path env, ''.git'', ''temp-patch.patch'']
                       in
                       (case writeFileSync (fs s) patchPath (sf_patch shelvedFile) of
                          Inl e \<Rightarrow> (Inl e, s)
                        | Inr f1 \<Rightarrow>
                            (case run_git (\<lambda>g f. git_raw env g f [''apply'', patchPath])
                                    (s\<lparr>fs := f1\<rparr>) of
                               (r, s1) \<Rightarrow>
                                 (if existsSync (fs s1) patchPath then
                                    (case unlinkSync (fs s1) patchPath of
                                       Inl e \<Rightarrow> (Inl e, s1)
                                     | Inr f2 \<Rightarrow> (r, s1\<lparr>fs := f2\<rparr>))
                                  else (r, s1))))))
               else (Inr (), s)))"

text \<open>The loop \<open>for (const shelvedFile of changelist.shelvedFiles) await
  this.unshelveFileInternal(shelvedFile)\<close>: the first exception ends it.\<close>

fun unshelveEach :: "'g Env \<Rightarrow> ShelvedFile list \<Rightarrow> 'g Service \<Rightarrow> (error + unit) \<times> 'g Service" where
  "unshelveEach env [] s = (Inr (), s)"
| "unshelveEach env (shelvedFile # rest) s =
     (case unshelveFileInternal env shelvedFile s of
        (Inl e, s1) \<Rightarrow> (Inl e, s1)
      | (Inr u, s1) \<Rightarrow> unshelveEach env rest s1)"

definition deleteChangelist :: "'g Env \<Rightarrow> string \<Rightarrow> 'g Service \<Rightarrow> (error + unit) \<times> 'g Service" where
  "deleteChangelist env ident s =
     (case getChangelist s ident of
        None \<Rightarrow> (Inl (ChangelistNotFound ident), s)
      | Some changelist \<Rightarrow>
          if cl_isDefault changelist then (Inl CannotDeleteDefault, s)
          else
            (case (if length (cl_shelvedFiles changelist) > 0
                   then unshelveEach env (cl_shelvedFiles changelist) s
                   else (Inr (), s)) of
               (Inl e, s1) \<Rightarrow> (Inl e, s1)
             | (Inr u, s1) \<Rightarrow>
                 (let s2 = set_changelists
                             (filter (\<lambda>cl. cl_id cl \<noteq> ident) (changelists (state s1))) s1
                  in
                  (case (if cl_isActive changelist then
                           (case getDefaultChangelist s2 of
                              Inl e \<Rightarrow> (Inl e, s2)
                            | Inr defaultCl \<Rightarrow>
                                (let s3 = set_changelists
                                            (update_first cl_isDefault (\<lambda>cl. cl\<lparr>cl_isActive := True\<rparr>)
                                               (changelists (state s2))) s2
                                 in (Inr (),
                                     s3\<lparr>state := (state s3)\<lparr>activeChangelistId := cl_id defaultCl\<rparr>\<rparr>)))
                         else (Inr (), s2)) of
                     (Inl e, s4) \<Rightarrow> (Inl e, s4)
                   | (Inr u, s4) \<Rightarrow>
                       (Inr (), fireChangelists (refresh env (saveState env (state s4) s4)))))))"

subsection \<open>Shelve and unshelve\<close>

definition shelveFile :: "'g Env \<Rightarrow> string \<Rightarrow> string \<Rightarrow> 'g Service \<Rightarrow> (error + unit) \<times> 'g Service" where
  "shelveFile env relativePath targetChangelistId s =
     (case git s of
        None \<Rightarrow> (Inl GitNotInitialized, s)
      | Some g \<Rightarrow>
          (let normalizedPath = normalizePath relativePath in
           (case map_of (changedFiles s) normalizedPath of
              None \<Rightarrow> (Inl (FileNotFoundInChanges relativePath), s)
            | Some file \<Rightarrow>
                (case getChangelist s targetChangelistId of
                   None \<Rightarrow> (Inl (ChangelistNotFound targetChangelistId), s)
                 | Some changelist \<Rightarrow>
                     if cl_isDefault changelist then (Inl CannotSaveToDefault, s)
                     else
                       (let absolutePath =
                              getAbsolutePathFromRepo env normalizedPath (repository_path env)
                        in
                        (case (if cf_status file = Deleted then Inr None
                               else if existsSync (fs s) absolutePath then
                                 (case readFileSync (utf8_decode env) (fs s) absolutePath of
                                    Inl e \<Rightarrow> Inl e
                                  | Inr c \<Rightarrow> Inr (Some c))
                               else Inr None) of
                           Inl e \<Rightarrow> (Inl e, s)
                         | Inr currentContent \<Rightarrow>
                             (let headContent =
                                    (if cf_status file \<noteq> Untracked then
                                       (case git_show env g (fs s) [''HEAD:'' @ normalizedPath] of
                                          Inl msg \<Rightarrow> None
                                        | Inr c \<Rightarrow> Some c)
                                     else None);
                                  existingIndex =
                                    findIndex (\<lambda>f. normalizePath (sf_relativePath f) = normalizedPath)
                                      (cl_shelvedFiles changelist);
                                  shelvedFile =
                                    \<lparr>sf_relativePath = normalizedPath, sf_status = cf_status file,
                                     sf_patch = [], sf_originalContent = currentContent,
                                     sf_headContent = headContent,
                                     sf_shelvedAt = Date_now env (draws s),
                                     sf_originalPath = cf_originalPath file,
                                     sf_repoPath = Some (repository_path env)\<rparr>;
                                  s1 = s\<lparr>draws := Suc (draws s)\<rparr>;
                                  s2 = mutate_changelist targetChangelistId
                                         (\<lambda>cl. cl\<lparr>cl_shelvedFiles :=
                                                  (case existingIndex of
                                                     Some i \<Rightarrow> (cl_shelvedFiles cl)[i := shelvedFile]
                                                   | None \<Rightarrow> cl_shelvedFiles cl @ [shelvedFile])\<rparr>)
                                         s1;
                                  s3 = saveSnapshotToFile env shelvedFile changelist s2;
                                  s4 = saveState env (state s3) s3
                              in (Inr (), fireChangelists s4))))))))"

fun shelveFiles :: "'g Env \<Rightarrow> string list \<Rightarrow> string \<Rightarrow> 'g Service \<Rightarrow> (error + unit) \<times> 'g Service" where
  "shelveFiles env [] targetChangelistId s = (Inr (), s)"
| "shelveFiles env (p # rest) targetChangelistId s =
     (case shelveFile env p targetChangelistId s of
        (Inl e, s1) \<Rightarrow> (Inl e, s1)
      | (Inr u, s1) \<Rightarrow> shelveFiles env rest targetChangelistId s1)"

definition unshelveFile :: "'g Env \<Rightarrow> string \<Rightarrow> string \<Rightarrow> 'g Service \<Rightarrow> (error + unit) \<times> 'g Service" where
  "unshelveFile env changelistId relativePath s =
     (case getChangelist s changelistId of
        None \<Rightarrow> (Inl (ChangelistNotFound changelistId), s)
      | Some changelist \<Rightarrow>
          (let normalizedPath = normalizePath relativePath in
           (case find (\<lambda>f. normalizePath (sf_relativePath f) = normalizedPath)
                   (cl_shelvedFiles changelist) of
              None \<Rightarrow> (Inl (FileNotFoundInChangelist relativePath), s)
            | Some shelvedFile \<Rightarrow>
                (case unshelveFileInternal env shelvedFile s of
                   (Inl e, s1) \<Rightarrow> (Inl e, s1)
                 | (Inr u, s1) \<Rightarrow> (Inr (), fireChangelists (refresh env s1))))))"

definition applyAndStage :: "'g Env \<Rightarrow> string \<Rightarrow> string \<Rightarrow> 'g Service \<Rightarrow> (error + unit) \<times> 'g Service" where
  "applyAndStage env changelistId relativePath s =
     (case git s of
        None \<Rightarrow> (Inl GitNotInitialized, s)
      | Some g \<Rightarrow>
          (case getChangelist s changelistId of
             None \<Rightarrow> (Inl (ChangelistNotFound changelistId), s)
           | Some changelist \<Rightarrow>
               (let normalizedPath = normalizePath relativePath in
                (case find (\<lambda>f. normalizePath (sf_relativePath f) = normalizedPath)
                        (cl_shelvedFiles changelist) of
                   None \<Rightarrow> (Inl (FileNotFoundInChangelist relativePath), s)
                 | Some shelvedFile \<Rightarrow>
                     (case unshelveFileInternal env shelvedFile s of
                        (Inl e, s1) \<Rightarrow> (Inl e, s1)
                      | (Inr u, s1) \<Rightarrow>
                          (case run_git (\<lambda>g f. git_add env g f [normalizedPath]) s1 of
                             (Inl e, s2) \<Rightarrow> (Inl e, s2)
                           | (Inr u, s2) \<Rightarrow> (Inr (), fireChangelists (refresh env s2))))))))"

definition applyAllAndStage :: "'g Env \<Rightarrow> string \<Rightarrow> 'g Service \<Rightarrow> (error + unit) \<times> 'g Service" where
  "applyAllAndStage env changelistId s =
     (case git s of
        None \<Rightarrow> (Inl GitNotInitialized, s)
      | Some g \<Rightarrow>
          (case getChangelist s changelistId of
             None \<Rightarrow> (Inl (ChangelistNotFound changelistId), s)
           | Some changelist \<Rightarrow>
               if length (cl_shelvedFiles changelist) = 0 then (Inl NoFilesInChangelist, s)
               else
                 (case unshelveEach env (cl_shelvedFiles changelist) s of
                    (Inl e, s1) \<Rightarrow> (Inl e, s1)
                  | (Inr u, s1) \<Rightarrow>
                      (let filePaths = map sf_relativePath (cl_shelvedFiles changelist) in
                       (case run_git (\<lambda>g f. git_add env g f filePaths) s1 of
                          (Inl e, s2) \<Rightarrow> (Inl e, s2)
                        | (Inr u, s2) \<Rightarrow> (Inr (), fireChangelists (refresh env s2)))))))"

definition unshelveAll :: "'g Env \<Rightarrow> string \<Rightarrow> 'g Service \<Rightarrow> (error + unit) \<times> 'g Service" where
  "unshelveAll env changelistId s =
     (case getChangelist s changelistId of
        None \<Rightarrow> (Inl (ChangelistNotFound changelistId), s)
      | Some changelist \<Rightarrow>
          (case unshelveEach env (cl_shelvedFiles changelist) s of
             (Inl e, s1) \<Rightarrow> (Inl e, s1)
           | (Inr u, s1) \<Rightarrow> (Inr (), fireChangelists (refresh env s1))))"

subsection \<open>Git operations\<close>

definition commitWorkingChanges :: "'g Env \<Rightarrow> string \<Rightarrow> 'g Service \<Rightarrow> (error + unit) \<times> 'g Service" where
  "commitWorkingChanges env message s =
     (case git s of
        None \<Rightarrow> (Inl GitNotInitialized, s)
      | Some g \<Rightarrow>
          (let files = map snd (changedFiles s) in
           if length files = 0 then (Inl NoFilesToCommit, s)
           else
             (let filePaths = map cf_relativePath files in
              (case run_git (\<lambda>g f. git_add env g f filePaths) s of
                 (Inl e, s1) \<Rightarrow> (Inl e, s1)
               | (Inr u, s1) \<Rightarrow>
                   (case run_git (\<lambda>g f. git_commit env g f message) s1 of
                      (Inl e, s2) \<Rightarrow> (Inl e, s2)
                    | (Inr u, s2) \<Rightarrow> (Inr (), refresh env s2))))))"

definition commitChangelist :: "'g Env \<Rightarrow> string \<Rightarrow> string \<Rightarrow> 'g Service \<Rightarrow> (error + unit) \<times> 'g Service" where
  "commitChangelist env changelistId message s =
     (case git s of
        None \<Rightarrow> (Inl GitNotInitialized, s)
      | Some g \<Rightarrow>
          (case getChangelist s changelistId of
             None \<Rightarrow> (Inl (ChangelistNotFound changelistId), s)
           | Some changelist \<Rightarrow>
               if cl_isDefault changelist then commitWorkingChanges env message s
               else if length (cl_shelvedFiles changelist) = 0 then (Inl NoShelvedFilesToCommit, s)
               else
                 (let hasWorkingChanges = (length (changedFiles s) > 0) in
                  (case (if hasWorkingChanges
                         then run_git (\<lambda>g f. git_stash env g f [''push'', ''-m'', ''git-changelists-temp'']) s
                         else (Inr (), s)) of
                     (Inl e, s1) \<Rightarrow> (Inl e, s1)
                   | (Inr u, s1) \<Rightarrow>
                       (case unshelveEach env (cl_shelvedFiles changelist) s1 of
                          (Inl e, s2) \<Rightarrow> (Inl e, s2)
                        | (Inr u, s2) \<Rightarrow>
                            (let filePaths = map sf_relativePath (cl_shelvedFiles changelist) in
                             (case run_git (\<lambda>g f. git_add env g f filePaths) s2 of
                                (Inl e, s3) \<Rightarrow> (Inl e, s3)
                              | (Inr u, s3) \<Rightarrow>
                                  (case run_git (\<lambda>g f. git_commit env g f message) s3 of
                                     (Inl e, s4) \<Rightarrow> (Inl e, s4)
                                   | (Inr u, s4) \<Rightarrow>
                                       (let s5 = mutate_changelist changelistId
                                                   (\<lambda>cl. cl\<lparr>cl_shelvedFiles := []\<rparr>) s4
                                        in
                                        (case (if hasWorkingChanges
                                               then run_git (\<lambda>g f. git_stash env g f [''pop'']) s5
                                               else (Inr (), s5)) of
                                           (Inl e, s6) \<Rightarrow> (Inl e, s6)
                                         | (Inr u, s6) \<Rightarrow>
                                             (Inr (),
                                              fireChangelists
                                                (refresh env (saveState env (state s6) s6)))))))))))))"

definition revertFile :: "'g Env \<Rightarrow> string \<Rightarrow> 'g Service \<Rightarrow> (error + unit) \<times> 'g Service" where
  "revertFile env relativePath s =
     (case git s of
        None \<Rightarrow> (Inl GitNotInitialized, s)
      | Some g \<Rightarrow>
          (let normalizedPath = normalizePath relativePath in
           (case map_of (changedFiles s) normalizedPath of
              None \<Rightarrow> (Inl (FileNotFound relativePath), s)
            | Some file \<Rightarrow>
                (case (if cf_status file = Untracked then
                         (let absolutePath =
                                getAbsolutePathFromRepo env normalizedPath (repository_path env)
                          in (case unlinkSync (fs s) absolutePath of
                                Inl e \<Rightarrow> (Inl e, s)
                              | Inr f1 \<Rightarrow> (Inr (), s\<lparr>fs := f1\<rparr>)))
                       else run_git (\<lambda>g f. git_checkout env g f [''--'', normalizedPath]) s) of
                   (Inl e, s1) \<Rightarrow> (Inl e, s1)
                 | (Inr u, s1) \<Rightarrow> (Inr (), refresh env s1)))))"

definition deleteShelvedFile :: "'g Env \<Rightarrow> string \<Rightarrow> string \<Rightarrow> 'g Service \<Rightarrow> (error + unit) \<times> 'g Service" where
  "deleteShelvedFile env changelistId relativePath s =
     (case getChangelist s changelistId of
        None \<Rightarrow> (Inl (ChangelistNotFound changelistId), s)
      | Some changelist \<Rightarrow>
          (let normalizedPath = normalizePath relativePath;
               shelvedFile = find (\<lambda>f. normalizePath (sf_relativePath f) = normalizedPath)
                               (cl_shelvedFiles changelist);
               s1 = (case shelvedFile of
                       Some sf \<Rightarrow> deleteSnapshotFile env sf changelist s
                     | None \<Rightarrow> s);
               s2 = mutate_changelist changelistId
                      (\<lambda>cl. cl\<lparr>cl_shelvedFiles :=
                               filter (\<lambda>f. normalizePath (sf_relativePath f) \<noteq> normalizedPath)
                                 (cl_shelvedFiles cl)\<rparr>) s1;
               s3 = saveState env (state s2) s2
           in (Inr (), fireChangelists s3)))"

subsection \<open>Import\<close>

text \<open>Assigning to a field of the object that \<open>createChangelist\<close> returned: it is the
  element that was pushed last.\<close>

fun update_last :: "('a \<Rightarrow> 'a) \<Rightarrow> 'a list \<Rightarrow> 'a list" where
  "update_last f [] = []"
| "update_last f [x] = [f x]"
| "update_last f (x # y # ys) = x # update_last f (y # ys)"

text \<open>The loop of \<open>importChangelists\<close>; it returns the count \<open>imported\<close>.\<close>

fun importItems ::
  "'g Env \<Rightarrow> (string \<times> ShelvedFile list option) list \<Rightarrow> 'g Service \<Rightarrow> nat \<times> 'g Service" where
  "importItems env [] s = (0, s)"
| "importItems env ((label, files) # rest) s =
     (case files of
        None \<Rightarrow> importItems env rest s
      | Some shelvedFiles \<Rightarrow>
          if label = [] then importItems env rest s
          else
            (case createChangelist env label s of
               (r, s1) \<Rightarrow>
                 (let s2 = set_changelists
                             (update_last (\<lambda>cl. cl\<lparr>cl_shelvedFiles := shelvedFiles\<rparr>)
                                (changelists (state s1))) s1
                  in (case importItems env rest s2 of (n, s3) \<Rightarrow> (Suc n, s3)))))"

definition importChangelists :: "'g Env \<Rightarrow> ChangelistExport \<Rightarrow> 'g Service \<Rightarrow> (error + nat) \<times> 'g Service" where
  "importChangelists env data s =
     (case ie_changelists data of
        None \<Rightarrow> (Inl InvalidImportData, s)
      | Some items \<Rightarrow>
          (case importItems env items s of
             (imported, s1) \<Rightarrow>
               (Inr imported, fireChangelists (saveState env (state s1) s1))))"

subsection \<open>The operations of a service, and the states they reach\<close>

datatype operation =
    Refresh
  | CreateChangelist string
  | RenameChangelist string string
  | DeleteChangelist string
  | SetActiveChangelist string
  | ShelveFile string string
  | ShelveFiles "string list" string
  | UnshelveFile string string
  | ApplyAndStage string string
  | ApplyAllAndStage string
  | UnshelveAll string
  | CommitWorkingChanges string
  | CommitChangelist string string
  | RevertFile string
  | DeleteShelvedFile string string
  | ImportChangelists ChangelistExport

text \<open>The service after a call of one of its public methods, whether the call returned
  or threw.\<close>

fun perform :: "'g Env \<Rightarrow> operation \<Rightarrow> 'g Service \<Rightarrow> 'g Service" where
  "perform env Refresh s = refresh env s"
| "perform env (CreateChangelist label) s = snd (createChangelist env label s)"
| "perform env (RenameChangelist ident newLabel) s = snd (renameChangelist env ident newLabel s)"
| "perform env (DeleteChangelist ident) s = snd (deleteChangelist env ident s)"
| "perform env (SetActiveChangelist ident) s = snd (setActiveChangelist env ident s)"
| "perform env (ShelveFile p ident) s = snd (shelveFile env p ident s)"
| "perform env (ShelveFiles ps ident) s = snd (shelveFiles env ps ident s)"
| "perform env (UnshelveFile ident p) s = snd (unshelveFile env ident p s)"
| "perform env (ApplyAndStage ident p) s = snd (applyAndStage env ident p s)"
| "perform env (ApplyAllAndStage ident) s = snd (applyAllAndStage env ident s)"
| "perform env (UnshelveAll ident) s = snd (unshelveAll env ident s)"
| "perform env (CommitWorkingChanges message) s = snd (commitWorkingChanges env message s)"
| "perform env (CommitChangelist ident message) s = snd (commitChangelist env ident message s)"
| "perform env (RevertFile p) s = snd (revertFile env p s)"
| "perform env (DeleteShelvedFile ident p) s = snd (deleteShelvedFile env ident p s)"
| "perform env (ImportChangelists data) s = snd (importChangelists env data s)"

text \<open>The states of one repository's service: it is constructed on a store that holds no
  record for the repository, so that \<open>loadState\<close> synthesizes the fresh state; then
  any method is called, and between calls the working tree and the repository may change
  under the service (the user edits files, runs git).\<close>

inductive reachable :: "'g Env \<Rightarrow> 'g Service \<Rightarrow> bool" for env :: "'g Env" where
  fresh: "constructor env g f ws = (Inr (), s) \<Longrightarrow> ws (stateKey env) = None
            \<Longrightarrow> ws LEGACY_STATE_KEY = None \<Longrightarrow> reachable env s"
| call: "reachable env s \<Longrightarrow> reachable env (perform env op s)"
| world: "reachable env s \<Longrightarrow> reachable env (s\<lparr>fs := f, git := map_option (\<lambda>_. g) (git s)\<rparr>)"

section \<open>Invariants of the registry\<close>

text \<open>The default changelist is the first one and the only one flagged default.\<close>

definition defaultFirst :: "Changelist list \<Rightarrow> bool" where
  "defaultFirst cls =
     (case cls of [] \<Rightarrow> False | d # rest \<Rightarrow> cl_isDefault d \<and> (\<forall>c\<in>set rest. \<not> cl_isDefault c))"

definition atMostOneActive :: "Changelist list \<Rightarrow> bool" where
  "atMostOneActive cls = (length (filter cl_isActive cls) \<le> 1)"

text \<open>The repository handle \<open>this.git\<close> is set.\<close>

definition gitReady :: "'g Service \<Rightarrow> bool" where
  "gitReady s = (git s \<noteq> None)"

definition registry_ok :: "'g Service \<Rightarrow> bool" where
  "registry_ok s =
     (gitReady s \<and> defaultFirst (changelists (state s))
      \<and> atMostOneActive (changelists (state s)))"

text \<open>Two lists of changelists that carry, position by position, the same default and
  active flags.\<close>

definition same_flags :: "Changelist list \<Rightarrow> Changelist list \<Rightarrow> bool" where
  "same_flags cls cls' =
     (map cl_isDefault cls' = map cl_isDefault cls \<and> map cl_isActive cls' = map cl_isActive cls)"

text \<open>Within each changelist, at most one snapshot per normalized relative path.\<close>

definition snapshotPaths :: "Changelist \<Rightarrow> string list" where
  "snapshotPaths cl = map (\<lambda>f. normalizePath (sf_relativePath f)) (cl_shelvedFiles cl)"

definition pathsUnique :: "Changelist list \<Rightarrow> bool" where
  "pathsUnique cls = (\<forall>cl\<in>set cls. distinct (snapshotPaths cl))"

section \<open>Observations on the working tree and on snapshots\<close>

text \<open>The content of the working-tree file at a path, if a file is there.\<close>

definition fileAt :: "filesystem \<Rightarrow> string \<Rightarrow> string option" where
  "fileAt f p = (case f p of Some (File c) \<Rightarrow> Some c | _ \<Rightarrow> None)"

text \<open>The absolute path of a changed file, as \<open>shelveFile\<close> computes it.\<close>

definition workingPath :: "'g Env \<Rightarrow> string \<Rightarrow> string" where
  "workingPath env p = getAbsolutePathFromRepo env (normalizePath p) (repository_path env)"

text \<open>The absolute path that \<open>unshelveFileInternal\<close> restores a snapshot to.\<close>

definition restoreTarget :: "'g Env \<Rightarrow> ShelvedFile \<Rightarrow> string" where
  "restoreTarget env shelvedFile =
     getAbsolutePathFromRepo env (sf_relativePath shelvedFile)
       (or_else (sf_repoPath shelvedFile) (repository_path env))"

text \<open>A legacy snapshot: no deletion status, no captured content, but a stored patch, which
  \<open>unshelveFileInternal\<close> hands to \<open>git apply\<close>.\<close>

definition legacyPatch :: "ShelvedFile \<Rightarrow> bool" where
  "legacyPatch shelvedFile =
     (sf_status shelvedFile \<noteq> Deleted \<and> sf_originalContent shelvedFile = None
      \<and> sf_patch shelvedFile \<noteq> [])"


text \<open>An import whose snapshot arrays each hold at most one snapshot per normalized path;
  every other operation qualifies.\<close>

fun importsUnique :: "operation \<Rightarrow> bool" where
  "importsUnique (ImportChangelists data) =
     (case ie_changelists data of
        None \<Rightarrow> True
      | Some items \<Rightarrow>
          list_all (\<lambda>(label, files).
                      case files of
                        None \<Rightarrow> True
                      | Some shelvedFiles \<Rightarrow>
                          distinct (map (\<lambda>f. normalizePath (sf_relativePath f)) shelvedFiles))
            items)"
| "importsUnique _ = True"

text \<open>The states reached when only operations that satisfy \<open>admitted\<close> are called.\<close>

inductive reachableBy :: "'g Env \<Rightarrow> (operation \<Rightarrow> bool) \<Rightarrow> 'g Service \<Rightarrow> bool"
  for env :: "'g Env" and admitted :: "operation \<Rightarrow> bool" where
  fresh: "constructor env g f ws = (Inr (), s) \<Longrightarrow> ws (stateKey env) = None
            \<Longrightarrow> ws LEGACY_STATE_KEY = None \<Longrightarrow> reachableBy env admitted s"
| call: "reachableBy env admitted s \<Longrightarrow> admitted op \<Longrightarrow> reachableBy env admitted (perform env op s)"
| world: "reachableBy env admitted s
            \<Longrightarrow> reachableBy env admitted (s\<lparr>fs := f, git := map_option (\<lambda>_. g) (git s)\<rparr>)"

text \<open>A state without its repository paths and its version: what is left are the fields
  that every schema version has.\<close>

definition withoutRepoPaths :: "ChangelistState \<Rightarrow> ChangelistState" where
  "withoutRepoPaths st =
     st\<lparr>changelists :=
          map (\<lambda>cl. cl\<lparr>cl_repoPath := None,
                        cl_shelvedFiles :=
                          map (\<lambda>sf. sf\<lparr>sf_repoPath := None\<rparr>) (cl_shelvedFiles cl)\<rparr>)
            (changelists st),
        version := 0\<rparr>"

section \<open>A concrete repository\<close>

text \<open>Decoding UTF-8 as Node does: a well-formed sequence is kept, and each maximal
  ill-formed part becomes U+FFFD, whose encoding is EF BF BD. \<open>decodeFrom\<close> has read
  the bytes \<open>pending\<close> of a sequence that needs \<open>needed\<close> more bytes, the next of them
  between \<open>lo\<close> and \<open>hi\<close>.\<close>

definition replacementChar :: string where
  "replacementChar = [CHR 0xEF, CHR 0xBF, CHR 0xBD]"

datatype leadByte = Ascii | Lead nat nat nat | Illformed

definition leadOf :: "nat \<Rightarrow> leadByte" where
  "leadOf b =
     (if b < 0x80 then Ascii
      else if 0xC2 \<le> b \<and> b \<le> 0xDF then Lead 1 0x80 0xBF
      else if b = 0xE0 then Lead 2 0xA0 0xBF
      else if b = 0xED then Lead 2 0x80 0x9F
      else if 0xE1 \<le> b \<and> b \<le> 0xEF then Lead 2 0x80 0xBF
      else if b = 0xF0 then Lead 3 0x90 0xBF
      else if b = 0xF4 then Lead 3 0x80 0x8F
      else if 0xF1 \<le> b \<and> b \<le> 0xF3 then Lead 3 0x80 0xBF
      else Illformed)"

fun decodeFrom :: "nat \<Rightarrow> nat \<Rightarrow> nat \<Rightarrow> string \<Rightarrow> string \<Rightarrow> string" where
  "decodeFrom needed lo hi pending [] = (if needed = 0 then [] else replacementChar)"
| "decodeFrom needed lo hi pending (b # bs) =
     (if 0 < needed \<and> lo \<le> of_char b \<and> of_char b \<le> hi then
        (if needed = 1 then pending @ b # decodeFrom 0 0x80 0xBF [] bs
         else decodeFrom (needed - 1) 0x80 0xBF (pending @ [b]) bs)
      else
        (if 0 < needed then replacementChar else []) @
        (case leadOf (of_char b) of
           Ascii \<Rightarrow> b # decodeFrom 0 0x80 0xBF [] bs
         | Lead n l h \<Rightarrow> decodeFrom n l h [b] bs
         | Illformed \<Rightarrow> replacementChar @ decodeFrom 0 0x80 0xBF [] bs))"

definition decodeUtf8 :: "string \<Rightarrow> string" where
  "decodeUtf8 bytes = decodeFrom 0 0x80 0xBF [] bytes"

text \<open>An environment on which the operations can be run: POSIX-style paths without
  normalisation, a repository whose state is the status it reports, and git commands that
  succeed without touching the working tree.\<close>

fun joinSegments :: "string list \<Rightarrow> string" where
  "joinSegments [] = ''.''"
| "joinSegments [x] = x"
| "joinSegments (x # y # ys) = x @ ''/'' @ joinSegments (y # ys)"

definition dirnameOf :: "string \<Rightarrow> string" where
  "dirnameOf p =
     (let r = dropWhile (\<lambda>c. c \<noteq> CHR ''/'') (rev p) in if r = [] then ''.'' else rev (tl r))"

definition basenameOf :: "string \<Rightarrow> string" where
  "basenameOf p = rev (takeWhile (\<lambda>c. c \<noteq> CHR ''/'') (rev p))"

definition cleanStatus :: StatusResult where
  "cleanStatus = \<lparr>st_modified = [], st_not_added = [], st_created = [], st_deleted = [],
     st_renamed = [], st_conflicted = [], st_files = []\<rparr>"

definition demoEnv :: "StatusResult Env" where
  "demoEnv = \<lparr>repository_path = ''/repo'', repository_name = ''repo'',
     workspaceRoot = Some ''/repo'', saveSnapshotsToFile = False,
     path_join = joinSegments, path_dirname = dirnameOf, path_basename = basenameOf,
     getRepoHash = (\<lambda>p. ''0a1b2c3d''), utf8_decode = decodeUtf8,
     Date_now = (\<lambda>n. 1000 + int n),
     generateId = (\<lambda>n. ''cl-'' @ replicate (Suc n) (CHR ''x'')),
     git_status = (\<lambda>g f. Inr g),
     git_show = (\<lambda>g f args. Inl ''fatal: path does not exist in HEAD''),
     git_add = (\<lambda>g f args. (None, g, f)),
     git_commit = (\<lambda>g f message. (None, g, f)),
     git_stash = (\<lambda>g f args. (None, g, f)),
     git_raw = (\<lambda>g f args. (None, g, f)),
     git_checkout = (\<lambda>g f args. (None, g, f))\<rparr>"

text \<open>A fresh service on a working tree with one modified file; then the changed files
  are refreshed and a changelist is created (it gets the id \<open>cl-xx\<close>, the default one
  has \<open>cl-x\<close>); then the file is shelved into it.\<close>

definition demoStart :: "StatusResult Service" where
  "demoStart = snd (constructor demoEnv (cleanStatus\<lparr>st_modified := [''a.txt'']\<rparr>)
                      [''/repo/a.txt'' \<mapsto> File ''v1''] Map.empty)"

definition demoCreated :: "StatusResult Service" where
  "demoCreated = perform demoEnv (CreateChangelist ''Feature A'') (perform demoEnv Refresh demoStart)"

definition demoShelved :: "StatusResult Service" where
  "demoShelved = perform demoEnv (ShelveFile ''a.txt'' ''cl-xx'') demoCreated"

definition demoActive :: "StatusResult Service" where
  "demoActive = perform demoEnv (SetActiveChangelist ''cl-xx'') demoShelved"


text \<open>A state that holds a legacy patch snapshot (it comes from an import here; a state
  migrated from an old version holds such snapshots too), in an environment where
  \<open>git apply\<close> adds a line to \<open>a.txt\<close> each time it runs.\<close>

definition legacySnapshot :: ShelvedFile where
  "legacySnapshot =
     \<lparr>sf_relativePath = ''a.txt'', sf_status = Modified, sf_patch = ''@@ -1,0 +2 @@'',
      sf_originalContent = None, sf_headContent = None, sf_shelvedAt = 1,
      sf_originalPath = None, sf_repoPath = None\<rparr>"

definition patchingEnv :: "StatusResult Env" where
  "patchingEnv =
     demoEnv\<lparr>git_raw :=
       (\<lambda>g f args.
          (None, g,
           (case fileAt f ''/repo/a.txt'' of
              Some c \<Rightarrow> f(''/repo/a.txt'' \<mapsto> File (c @ ''+''))
            | None \<Rightarrow> f)))\<rparr>"

definition demoLegacy :: "StatusResult Service" where
  "demoLegacy =
     perform patchingEnv
       (ImportChangelists \<lparr>ie_version = 2,
          ie_changelists = Some [(''Old work'', Some [legacySnapshot])],
          ie_exportedAt = ''2024-12-10''\<rparr>)
       (snd (constructor patchingEnv cleanStatus [''/repo/a.txt'' \<mapsto> File ''v1''] Map.empty))"

text \<open>A state whose second changelist came from an import file that lists two snapshots
  of the same path.\<close>

definition snapshotOf :: "string \<Rightarrow> string \<Rightarrow> int \<Rightarrow> ShelvedFile" where
  "snapshotOf p content t =
     \<lparr>sf_relativePath = p, sf_status = Modified, sf_patch = [],
      sf_originalContent = Some content, sf_headContent = None, sf_shelvedAt = t,
      sf_originalPath = None, sf_repoPath = Some ''/repo''\<rparr>"

definition duplicateImport :: ChangelistExport where
  "duplicateImport =
     \<lparr>ie_version = 2,
      ie_changelists =
        Some [(''Imported'', Some [snapshotOf ''a.txt'' ''v1'' 1, snapshotOf ''a.txt'' ''v2'' 2])],
      ie_exportedAt = ''2024-12-10''\<rparr>"

definition demoDuplicate :: "StatusResult Service" where
  "demoDuplicate = perform demoEnv (ImportChangelists duplicateImport) demoStart"


text \<open>Node's \<open>path.join\<close> on absolute POSIX paths: the segments are joined and the result
  is normalised, that is, empty and \<open>.\<close> components are dropped and a \<open>..\<close> component
  removes the component before it.\<close>

fun splitPath :: "string \<Rightarrow> string list" where
  "splitPath [] = [[]]"
| "splitPath (c # cs) =
     (if c = CHR ''/'' then [] # splitPath cs
      else (case splitPath cs of [] \<Rightarrow> [[c]] | x # xs \<Rightarrow> (c # x) # xs))"

fun resolveDots :: "string list \<Rightarrow> string list \<Rightarrow> string list" where
  "resolveDots kept [] = rev kept"
| "resolveDots kept (x # xs) =
     (if x = [] \<or> x = ''.'' then resolveDots kept xs
      else if x = ''..'' then resolveDots (tl kept) xs
      else resolveDots (x # kept) xs)"

definition posixJoin :: "string list \<Rightarrow> string" where
  "posixJoin segments =
     (let parts = resolveDots [] (concat (map splitPath segments))
      in if parts = [] then ''/'' else ''/'' @ joinSegments parts)"

text \<open>The same repository with the snapshot mirror switched on and normalising paths. The
  working tree holds \<open>a.txt\<close> at the top and in \<open>sub\<close>, and a file \<open>b.bin\<close> whose
  only byte is FF; \<open>sub/a.txt\<close> and \<open>b.bin\<close> are modified, and a changelist labelled
  \<open>..\<close> is created (the label passes \<open>sanitizeLabel\<close> unchanged).\<close>

definition mirrorEnv :: "StatusResult Env" where
  "mirrorEnv = demoEnv\<lparr>saveSnapshotsToFile := True, path_join := posixJoin\<rparr>"

definition demoParentLabel :: "StatusResult Service" where
  "demoParentLabel =
     perform mirrorEnv (CreateChangelist ''..'')
       (perform mirrorEnv Refresh
          (snd (constructor mirrorEnv (cleanStatus\<lparr>st_modified := [''sub/a.txt'', ''b.bin'']\<rparr>)
                  [''/repo'' \<mapsto> Dir, ''/repo/a.txt'' \<mapsto> File ''TOP'', ''/repo/sub'' \<mapsto> Dir,
                   ''/repo/sub/a.txt'' \<mapsto> File ''SUB'', ''/repo/b.bin'' \<mapsto> File [CHR 0xFF]]
                  Map.empty)))"

text \<open>A store that holds, for the repository, a record of schema version 3 with a
  changelist \<open>Work\<close> and one snapshot (the repository path of its default changelist is
  the empty string, the others have none), and also a record under the legacy key, which an
  earlier migration has left there.\<close>

definition olderRecord :: ChangelistState where
  "olderRecord =
     \<lparr>changelists =
        [\<lparr>cl_id = ''cl-d'', cl_label = ''Default Changelist'', cl_shelvedFiles = [],
          cl_isDefault = True, cl_isActive = False, cl_repoPath = Some []\<rparr>,
         \<lparr>cl_id = ''cl-w'', cl_label = ''Work'',
          cl_shelvedFiles = [(snapshotOf ''a.txt'' ''mine'' 5)\<lparr>sf_repoPath := None\<rparr>],
          cl_isDefault = False, cl_isActive = True, cl_repoPath = None\<rparr>],
      activeChangelistId = ''cl-w'', version = 3\<rparr>"

definition legacyRecord :: ChangelistState where
  "legacyRecord =
     \<lparr>changelists =
        [\<lparr>cl_id = ''cl-old'', cl_label = ''Default Changelist'', cl_shelvedFiles = [],
          cl_isDefault = True, cl_isActive = True, cl_repoPath = None\<rparr>],
      activeChangelistId = ''cl-old'', version = 1\<rparr>"

definition demoStore :: "string \<rightharpoonup> ChangelistState" where
  "demoStore = [stateKey demoEnv \<mapsto> olderRecord, LEGACY_STATE_KEY \<mapsto> legacyRecord]"

text \<open>The same repository where \<open>git stash pop\<close> fails with a conflict.\<close>

definition popFailingEnv :: "StatusResult Env" where
  "popFailingEnv =
     demoEnv\<lparr>git_stash :=
       (\<lambda>g f args. if args = [''pop''] then (Some ''CONFLICT (content)'', g, f)
                    else (None, g, f))\<rparr>"

section \<open>Properties\<close>

subsection \<open>Auxiliary facts\<close>

lemma update_first_unchanged:
  "find P xs = Some x \<Longrightarrow> f x = x \<Longrightarrow> update_first P f xs = xs"
  by (induction xs) (auto split: if_splits)

lemma filter_no_match: "\<forall>x\<in>set xs. P x \<Longrightarrow> filter P xs = xs"
  by (induction xs) auto

lemma readFileSync_Inr:
  "readFileSync d f p = Inr c \<longleftrightarrow> (\<exists>b. f p = Some (File b) \<and> c = d b)"
  by (auto simp: readFileSync_def split: option.splits node.splits)

lemma update_last_snoc [simp]: "update_last f (xs @ [x]) = xs @ [f x]"
proof (induction xs)
  case Nil
  then show ?case by simp
next
  case (Cons a xs)
  then show ?case by (cases xs) simp_all
qed

subsection \<open>What the helper operations leave alone\<close>

lemma saveSnapshotToFile_other_fields [simp]:
  "state (saveSnapshotToFile env sf cl s) = state s"
  "git (saveSnapshotToFile env sf cl s) = git s"
  "changedFiles (saveSnapshotToFile env sf cl s) = changedFiles s"
  "workspaceState (saveSnapshotToFile env sf cl s) = workspaceState s"
  "firedChangelists (saveSnapshotToFile env sf cl s) = firedChangelists s"
  "firedFiles (saveSnapshotToFile env sf cl s) = firedFiles s"
  "draws (saveSnapshotToFile env sf cl s) = draws s"
  by (simp_all add: saveSnapshotToFile_def Let_def split: option.splits sum.splits)

lemma saveSnapshotToFile_off [simp]:
  "\<not> saveSnapshotsToFile env \<Longrightarrow> saveSnapshotToFile env sf cl s = s"
  by (simp add: saveSnapshotToFile_def)

text \<open>The mirror of a snapshot is written at its mirror path, in a directory that is
  created if missing; every other path is left alone.\<close>

lemma saveSnapshotToFile_elsewhere:
  assumes "a \<noteq> getSnapshotFilePath env sf cl"
    and "a \<noteq> path_dirname env (getSnapshotFilePath env sf cl)"
  shows "fs (saveSnapshotToFile env sf cl s) a = fs s a"
  using assms
  by (auto simp: saveSnapshotToFile_def Let_def existsSync_def mkdirSync_def writeFileSync_def
      split: option.splits sum.splits node.splits if_splits)

lemma deleteSnapshotFile_other_fields [simp]:
  "state (deleteSnapshotFile env sf cl s) = state s"
  "git (deleteSnapshotFile env sf cl s) = git s"
  "changedFiles (deleteSnapshotFile env sf cl s) = changedFiles s"
  "workspaceState (deleteSnapshotFile env sf cl s) = workspaceState s"
  "firedChangelists (deleteSnapshotFile env sf cl s) = firedChangelists s"
  "firedFiles (deleteSnapshotFile env sf cl s) = firedFiles s"
  "draws (deleteSnapshotFile env sf cl s) = draws s"
  by (simp_all add: deleteSnapshotFile_def Let_def split: sum.splits)

lemma run_git_other_fields [simp]:
  "state (snd (run_git cmd s)) = state s"
  "changedFiles (snd (run_git cmd s)) = changedFiles s"
  "workspaceState (snd (run_git cmd s)) = workspaceState s"
  "firedChangelists (snd (run_git cmd s)) = firedChangelists s"
  "firedFiles (snd (run_git cmd s)) = firedFiles s"
  "draws (snd (run_git cmd s)) = draws s"
  "gitReady (snd (run_git cmd s)) = gitReady s"
  by (auto simp: run_git_def gitReady_def split: option.splits prod.splits)

lemma unshelveFileInternal_other_fields [simp]:
  "state (snd (unshelveFileInternal env sf s)) = state s"
  "changedFiles (snd (unshelveFileInternal env sf s)) = changedFiles s"
  "workspaceState (snd (unshelveFileInternal env sf s)) = workspaceState s"
  "firedChangelists (snd (unshelveFileInternal env sf s)) = firedChangelists s"
  "firedFiles (snd (unshelveFileInternal env sf s)) = firedFiles s"
  "draws (snd (unshelveFileInternal env sf s)) = draws s"
  "gitReady (snd (unshelveFileInternal env sf s)) = gitReady s"
  by (auto simp: unshelveFileInternal_def Let_def run_git_def gitReady_def
      split: option.splits sum.splits prod.splits if_splits)

text \<open>Whatever every single restore preserves, the loop over the snapshots preserves.\<close>

lemma unshelveEach_preserves:
  assumes "\<And>sf s. P s \<Longrightarrow> P (snd (unshelveFileInternal env sf s))" and "P s"
  shows "P (snd (unshelveEach env sfs s))"
  using assms(2)
proof (induction sfs arbitrary: s)
  case Nil
  then show ?case by simp
next
  case (Cons sf sfs)
  obtain r s1 where r: "unshelveFileInternal env sf s = (r, s1)"
    by (cases "unshelveFileInternal env sf s")
  have "P s1" using assms(1) [OF Cons.prems, of sf] r by simp
  then show ?case using r Cons.IH [of s1] by (cases r) simp_all
qed

lemma unshelveEach_other_fields [simp]:
  "state (snd (unshelveEach env sfs s)) = state s"
  "changedFiles (snd (unshelveEach env sfs s)) = changedFiles s"
  "workspaceState (snd (unshelveEach env sfs s)) = workspaceState s"
  "firedChangelists (snd (unshelveEach env sfs s)) = firedChangelists s"
  "firedFiles (snd (unshelveEach env sfs s)) = firedFiles s"
  "draws (snd (unshelveEach env sfs s)) = draws s"
  "gitReady (snd (unshelveEach env sfs s)) = gitReady s"
  by (rule unshelveEach_preserves, simp_all)+

lemma refresh_other_fields [simp]:
  "state (refresh env s) = state s"
  "git (refresh env s) = git s"
  "fs (refresh env s) = fs s"
  "workspaceState (refresh env s) = workspaceState s"
  "firedChangelists (refresh env s) = firedChangelists s"
  "draws (refresh env s) = draws s"
  by (auto simp: refresh_def split: option.splits sum.splits)

lemma saveState_fields [simp]:
  "state (saveState env st s) = state s"
  "git (saveState env st s) = git s"
  "fs (saveState env st s) = fs s"
  "changedFiles (saveState env st s) = changedFiles s"
  "firedChangelists (saveState env st s) = firedChangelists s"
  "firedFiles (saveState env st s) = firedFiles s"
  "draws (saveState env st s) = draws s"
  "workspaceState (saveState env st s) = (workspaceState s)(stateKey env \<mapsto> st)"
  by (simp_all add: saveState_def)

lemma fireChangelists_fields [simp]:
  "state (fireChangelists s) = state s"
  "git (fireChangelists s) = git s"
  "fs (fireChangelists s) = fs s"
  "changedFiles (fireChangelists s) = changedFiles s"
  "workspaceState (fireChangelists s) = workspaceState s"
  "firedChangelists (fireChangelists s) = Suc (firedChangelists s)"
  "firedFiles (fireChangelists s) = firedFiles s"
  "draws (fireChangelists s) = draws s"
  by (simp_all add: fireChangelists_def)

lemma set_changelists_fields [simp]:
  "changelists (state (set_changelists cls s)) = cls"
  "activeChangelistId (state (set_changelists cls s)) = activeChangelistId (state s)"
  "version (state (set_changelists cls s)) = version (state s)"
  "git (set_changelists cls s) = git s"
  "fs (set_changelists cls s) = fs s"
  "changedFiles (set_changelists cls s) = changedFiles s"
  "workspaceState (set_changelists cls s) = workspaceState s"
  "firedChangelists (set_changelists cls s) = firedChangelists s"
  "firedFiles (set_changelists cls s) = firedFiles s"
  "draws (set_changelists cls s) = draws s"
  by (simp_all add: set_changelists_def)

lemma mutate_changelist_fields [simp]:
  "changelists (state (mutate_changelist ident f s))
     = update_first (\<lambda>cl. cl_id cl = ident) f (changelists (state s))"
  "activeChangelistId (state (mutate_changelist ident f s)) = activeChangelistId (state s)"
  "version (state (mutate_changelist ident f s)) = version (state s)"
  "git (mutate_changelist ident f s) = git s"
  "fs (mutate_changelist ident f s) = fs s"
  "changedFiles (mutate_changelist ident f s) = changedFiles s"
  "workspaceState (mutate_changelist ident f s) = workspaceState s"
  "firedChangelists (mutate_changelist ident f s) = firedChangelists s"
  "firedFiles (mutate_changelist ident f s) = firedFiles s"
  "draws (mutate_changelist ident f s) = draws s"
  by (simp_all add: mutate_changelist_def)

text \<open>A step that may throw, followed by the rest of the method: what holds after the
  step when it throws, and after the rest when it returns, holds after both.\<close>

lemma seq_inv:
  assumes "P (snd m)" and "\<And>u. fst m = Inr u \<Longrightarrow> P (snd (k u (snd m)))"
  shows "P (snd (case m of (Inl e, s1) \<Rightarrow> (Inl e, s1) | (Inr u, s1) \<Rightarrow> k u s1))"
proof (cases m)
  case (Pair r s1)
  show ?thesis
  proof (cases r)
    case (Inl e)
    then show ?thesis using Pair assms(1) by simp
  next
    case (Inr u)
    then show ?thesis using Pair assms(2) [of u] by simp
  qed
qed

lemmas state_seq = seq_inv [where P = "\<lambda>x. state x = st" for st]
lemmas git_seq = seq_inv [where P = "\<lambda>x. gitReady x = b" for b]

lemma gitReady_simps [simp]:
  "gitReady (saveSnapshotToFile env sf cl s) = gitReady s"
  "gitReady (deleteSnapshotFile env sf cl s) = gitReady s"
  "gitReady (refresh env s) = gitReady s"
  "gitReady (saveState env st s) = gitReady s"
  "gitReady (fireChangelists s) = gitReady s"
  "gitReady (set_changelists cls s) = gitReady s"
  "gitReady (mutate_changelist ident f s) = gitReady s"
  "gitReady (s\<lparr>fs := f'\<rparr>) = gitReady s"
  "gitReady (s\<lparr>draws := n\<rparr>) = gitReady s"
  "gitReady (s\<lparr>state := st\<rparr>) = gitReady s"
  by (simp_all add: gitReady_def)

subsection \<open>Methods that do not touch the state\<close>

lemma unshelveFile_state [simp]:
  "state (snd (unshelveFile env c p s)) = state s"
  "gitReady (snd (unshelveFile env c p s)) = gitReady s"
  unfolding unshelveFile_def Let_def
  by (auto split: option.splits intro!: state_seq git_seq)

lemma applyAndStage_state [simp]:
  "state (snd (applyAndStage env c p s)) = state s"
  "gitReady (snd (applyAndStage env c p s)) = gitReady s"
  unfolding applyAndStage_def Let_def
  by (auto split: option.splits intro!: state_seq git_seq)

lemma applyAllAndStage_state [simp]:
  "state (snd (applyAllAndStage env c s)) = state s"
  "gitReady (snd (applyAllAndStage env c s)) = gitReady s"
  unfolding applyAllAndStage_def Let_def
  by (auto split: option.splits intro!: state_seq git_seq)

lemma unshelveAll_state [simp]:
  "state (snd (unshelveAll env c s)) = state s"
  "gitReady (snd (unshelveAll env c s)) = gitReady s"
  unfolding unshelveAll_def Let_def
  by (auto split: option.splits intro!: state_seq git_seq)

lemma commitWorkingChanges_state [simp]:
  "state (snd (commitWorkingChanges env m s)) = state s"
  "gitReady (snd (commitWorkingChanges env m s)) = gitReady s"
  unfolding commitWorkingChanges_def Let_def
  by (auto split: option.splits intro!: state_seq git_seq)

lemma revertFile_state [simp]:
  "state (snd (revertFile env p s)) = state s"
  "gitReady (snd (revertFile env p s)) = gitReady s"
  unfolding revertFile_def Let_def
  by (auto split: option.splits sum.splits intro!: state_seq git_seq)

subsection \<open>The invariants depend on the flags only\<close>

lemma defaultFirst_flags:
  assumes "map cl_isDefault xs = map cl_isDefault ys"
  shows "defaultFirst xs = defaultFirst ys"
proof -
  have char: "defaultFirst zs
      = (case map cl_isDefault zs of [] \<Rightarrow> False | d # r \<Rightarrow> d \<and> True \<notin> set r)" for zs
    by (cases zs) (auto simp: defaultFirst_def)
  show ?thesis unfolding char assms ..
qed

lemma atMostOneActive_flags:
  assumes "map cl_isActive xs = map cl_isActive ys"
  shows "atMostOneActive xs = atMostOneActive ys"
proof -
  have len: "length (filter cl_isActive zs) = length (filter id (map cl_isActive zs))" for zs
    by (induction zs) simp_all
  show ?thesis unfolding atMostOneActive_def len assms ..
qed

lemma same_flags_refl [simp]: "same_flags cls cls"
  by (simp add: same_flags_def)

lemma update_first_flags:
  "(\<And>c. cl_isDefault (f c) = cl_isDefault c) \<Longrightarrow>
     map cl_isDefault (update_first P f xs) = map cl_isDefault xs"
  "(\<And>c. cl_isActive (f c) = cl_isActive c) \<Longrightarrow>
     map cl_isActive (update_first P f xs) = map cl_isActive xs"
  by (induction xs) auto

lemma same_flags_update_first [simp]:
  "(\<And>c. cl_isDefault (f c) = cl_isDefault c) \<Longrightarrow> (\<And>c. cl_isActive (f c) = cl_isActive c)
     \<Longrightarrow> same_flags cls (update_first P f xs) = same_flags cls xs"
  by (simp add: same_flags_def update_first_flags)

lemma registry_ok_same_flags:
  assumes "same_flags (changelists (state s)) (changelists (state s'))"
    and "gitReady s' = gitReady s" and "registry_ok s"
  shows "registry_ok s'"
proof -
  have d: "defaultFirst (changelists (state s')) = defaultFirst (changelists (state s))"
    using assms(1) by (intro defaultFirst_flags) (simp add: same_flags_def)
  have a: "atMostOneActive (changelists (state s')) = atMostOneActive (changelists (state s))"
    using assms(1) by (intro atMostOneActive_flags) (simp add: same_flags_def)
  show ?thesis using assms(3) unfolding registry_ok_def d a assms(2) .
qed

lemmas flags_seq = seq_inv [where P = "\<lambda>x. same_flags cls (changelists (state x))" for cls]

subsection \<open>Methods that keep the flags\<close>

lemma renameChangelist_flags:
  "same_flags (changelists (state s)) (changelists (state (snd (renameChangelist env i l s))))"
  "gitReady (snd (renameChangelist env i l s)) = gitReady s"
  unfolding renameChangelist_def Let_def
  by (auto split: option.splits)

lemma shelveFile_flags:
  "same_flags (changelists (state s)) (changelists (state (snd (shelveFile env p c s))))"
  "gitReady (snd (shelveFile env p c s)) = gitReady s"
  unfolding shelveFile_def Let_def
  by (auto split: option.splits sum.splits)

lemma commitChangelist_flags:
  "same_flags (changelists (state s)) (changelists (state (snd (commitChangelist env c m s))))"
  "gitReady (snd (commitChangelist env c m s)) = gitReady s"
  unfolding commitChangelist_def Let_def
  by (auto split: option.splits intro!: flags_seq git_seq)

lemma deleteShelvedFile_flags:
  "same_flags (changelists (state s)) (changelists (state (snd (deleteShelvedFile env c p s))))"
  "gitReady (snd (deleteShelvedFile env c p s)) = gitReady s"
  unfolding deleteShelvedFile_def Let_def
  by (auto split: option.splits)

lemma same_flags_trans:
  "same_flags xs ys \<Longrightarrow> same_flags ys zs \<Longrightarrow> same_flags xs zs"
  by (simp add: same_flags_def)

lemma shelveFiles_flags:
  "same_flags (changelists (state s)) (changelists (state (snd (shelveFiles env ps c s))))
   \<and> gitReady (snd (shelveFiles env ps c s)) = gitReady s"
proof (induction ps arbitrary: s)
  case Nil
  then show ?case by simp
next
  case (Cons p ps)
  obtain r s1 where r: "shelveFile env p c s = (r, s1)"
    by (cases "shelveFile env p c s")
  have first: "same_flags (changelists (state s)) (changelists (state s1))" "gitReady s1 = gitReady s"
    using shelveFile_flags [where s = s and env = env and p = p and c = c] r by simp_all
  show ?case
  proof (cases r)
    case (Inl e)
    then show ?thesis using r first by simp
  next
    case (Inr u)
    then have "snd (shelveFiles env (p # ps) c s) = snd (shelveFiles env ps c s1)"
      using r by simp
    then show ?thesis using same_flags_trans [OF first(1)] Cons.IH [of s1] first(2) by simp
  qed
qed

subsection \<open>Methods that change the flags\<close>

lemma defaultFirst_snoc: "defaultFirst cls \<Longrightarrow> \<not> cl_isDefault c \<Longrightarrow> defaultFirst (cls @ [c])"
  by (cases cls) (auto simp: defaultFirst_def)

lemma atMostOneActive_snoc: "atMostOneActive cls \<Longrightarrow> \<not> cl_isActive c \<Longrightarrow> atMostOneActive (cls @ [c])"
  by (simp add: atMostOneActive_def)

lemma createChangelist_registry_ok:
  "registry_ok s \<Longrightarrow> registry_ok (snd (createChangelist env label s))"
  by (simp add: createChangelist_def Let_def registry_ok_def defaultFirst_snoc atMostOneActive_snoc)

lemma createChangelist_changelists:
  "changelists (state (snd (createChangelist env label s)))
     = changelists (state s) @ [\<lparr>cl_id = generateId env (draws s), cl_label = label,
          cl_shelvedFiles = [], cl_isDefault = False, cl_isActive = False,
          cl_repoPath = Some (repository_path env)\<rparr>]"
  by (simp add: createChangelist_def Let_def)

lemma importItems_registry_ok:
  "registry_ok s \<Longrightarrow> registry_ok (snd (importItems env items s))"
proof (induction items arbitrary: s)
  case Nil
  then show ?case by simp
next
  case (Cons item items)
  obtain label files where item: "item = (label, files)" by (cases item)
  show ?case
  proof (cases "files = None \<or> label = []")
    case True
    then show ?thesis using item Cons by (auto split: option.splits)
  next
    case False
    then obtain shelvedFiles where f: "files = Some shelvedFiles" and l: "label \<noteq> []" by auto
    let ?s1 = "snd (createChangelist env label s)"
    let ?s2 = "set_changelists (update_last (\<lambda>cl. cl\<lparr>cl_shelvedFiles := shelvedFiles\<rparr>)
                  (changelists (state ?s1))) ?s1"
    have "registry_ok ?s1" using Cons.prems by (rule createChangelist_registry_ok)
    moreover have "same_flags (changelists (state ?s1)) (changelists (state ?s2))"
      by (simp add: createChangelist_changelists same_flags_def)
    moreover have "gitReady ?s2 = gitReady ?s1" by simp
    ultimately have "registry_ok ?s2" by (metis registry_ok_same_flags)
    then have "registry_ok (snd (importItems env items ?s2))" by (rule Cons.IH)
    then show ?thesis using item f l by (simp add: split_beta Let_def)
  qed
qed

lemma importChangelists_registry_ok:
  "registry_ok s \<Longrightarrow> registry_ok (snd (importChangelists env data s))"
proof -
  assume ok: "registry_ok s"
  show ?thesis
  proof (cases "ie_changelists data")
    case None
    then show ?thesis using ok by (simp add: importChangelists_def)
  next
    case (Some items)
    have "registry_ok (snd (importItems env items s))" using ok by (rule importItems_registry_ok)
    then show ?thesis using Some
      by (simp add: importChangelists_def split_beta registry_ok_def)
  qed
qed

lemma registry_ok_cong:
  "state s' = state s \<Longrightarrow> gitReady s' = gitReady s \<Longrightarrow> registry_ok s' = registry_ok s"
  by (simp add: registry_ok_def)

lemma registry_ok_simps [simp]:
  "registry_ok (snd (run_git cmd s)) = registry_ok s"
  "registry_ok (snd (unshelveFileInternal env sf s)) = registry_ok s"
  "registry_ok (snd (unshelveEach env sfs s)) = registry_ok s"
  "registry_ok (refresh env s) = registry_ok s"
  "registry_ok (saveState env st s) = registry_ok s"
  "registry_ok (fireChangelists s) = registry_ok s"
  by (simp_all add: registry_ok_def)

lemma filter_active_cleared [simp]:
  "filter cl_isActive (map (\<lambda>cl. cl\<lparr>cl_isActive := False\<rparr>) cls) = []"
  by (induction cls) simp_all

text \<open>\<open>setActiveChangelist\<close> on the list of changelists: afterwards the changelist that
  \<open>getChangelist\<close> found is the only active one.\<close>

lemma setActive_only_active:
  "find (\<lambda>cl. cl_id cl = i) cls = Some c \<Longrightarrow>
     filter cl_isActive
       (update_first (\<lambda>cl. cl_id cl = i) (\<lambda>cl. cl\<lparr>cl_isActive := True\<rparr>)
          (map (\<lambda>cl. cl\<lparr>cl_isActive := False\<rparr>) cls))
     = [c\<lparr>cl_isActive := True\<rparr>]"
proof (induction cls)
  case Nil
  then show ?case by simp
next
  case (Cons x xs)
  show ?case
  proof (cases "cl_id x = i")
    case True
    then have "c = x" using Cons.prems by simp
    then show ?thesis using True by simp
  next
    case False
    then have "find (\<lambda>cl. cl_id cl = i) xs = Some c" using Cons.prems by simp
    then show ?thesis using False Cons.IH by simp
  qed
qed

lemma setActiveChangelist_result:
  assumes "getChangelist s i = Some c"
  shows "fst (setActiveChangelist env i s) = Inr ()"
    and "filter cl_isActive (changelists (state (snd (setActiveChangelist env i s))))
           = [c\<lparr>cl_isActive := True\<rparr>]"
    and "activeChangelistId (state (snd (setActiveChangelist env i s))) = i"
    and "map cl_isDefault (changelists (state (snd (setActiveChangelist env i s))))
           = map cl_isDefault (changelists (state s))"
    and "gitReady (snd (setActiveChangelist env i s)) = gitReady s"
  using assms setActive_only_active [of i "changelists (state s)" c]
  by (simp_all add: setActiveChangelist_def Let_def getChangelist_def update_first_flags o_def
      gitReady_def)

lemma setActiveChangelist_registry_ok:
  assumes "registry_ok s"
  shows "registry_ok (snd (setActiveChangelist env i s))"
proof (cases "getChangelist s i")
  case None
  then show ?thesis using assms by (simp add: setActiveChangelist_def)
next
  case (Some c)
  have "defaultFirst (changelists (state (snd (setActiveChangelist env i s))))
      = defaultFirst (changelists (state s))"
    by (intro defaultFirst_flags setActiveChangelist_result(4) [OF Some])
  then show ?thesis
    using assms setActiveChangelist_result(2,5) [OF Some, of env]
    by (simp add: registry_ok_def atMostOneActive_def)
qed

lemma restore_loop_guard [simp]:
  "(if sfs \<noteq> [] then unshelveEach env sfs s else (Inr (), s)) = unshelveEach env sfs s"
  "(if sfs = [] then (Inr (), s) else unshelveEach env sfs s) = unshelveEach env sfs s"
  by (cases sfs; simp)+

lemma deleteChangelist_restore_fails:
  assumes "getChangelist s i = Some c" and "\<not> cl_isDefault c"
    and "fst (unshelveEach env (cl_shelvedFiles c) s) = Inl e"
  shows "deleteChangelist env i s = (Inl e, snd (unshelveEach env (cl_shelvedFiles c) s))"
  using assms by (simp add: deleteChangelist_def split_beta)

lemma deleteChangelist_restore_ok:
  assumes "getChangelist s i = Some c" and "\<not> cl_isDefault c"
    and "fst (unshelveEach env (cl_shelvedFiles c) s) = Inr u"
  shows "fs (snd (deleteChangelist env i s)) = fs (snd (unshelveEach env (cl_shelvedFiles c) s))"
    and "\<not> cl_isActive c \<Longrightarrow> fst (deleteChangelist env i s) = Inr ()"
    and "\<not> cl_isActive c \<Longrightarrow> changelists (state (snd (deleteChangelist env i s)))
            = filter (\<lambda>cl. cl_id cl \<noteq> i) (changelists (state s))"
    and "cl_isActive c \<Longrightarrow> find cl_isDefault (filter (\<lambda>cl. cl_id cl \<noteq> i) (changelists (state s))) = Some d
          \<Longrightarrow> fst (deleteChangelist env i s) = Inr ()
            \<and> changelists (state (snd (deleteChangelist env i s)))
                = update_first cl_isDefault (\<lambda>cl. cl\<lparr>cl_isActive := True\<rparr>)
                    (filter (\<lambda>cl. cl_id cl \<noteq> i) (changelists (state s)))
            \<and> activeChangelistId (state (snd (deleteChangelist env i s))) = cl_id d"
    and "cl_isActive c \<Longrightarrow> find cl_isDefault (filter (\<lambda>cl. cl_id cl \<noteq> i) (changelists (state s))) = None
          \<Longrightarrow> fst (deleteChangelist env i s) = Inl DefaultChangelistNotFound
            \<and> changelists (state (snd (deleteChangelist env i s)))
                = filter (\<lambda>cl. cl_id cl \<noteq> i) (changelists (state s))"
    and "gitReady (snd (deleteChangelist env i s)) = gitReady s"
  using assms
  by (simp_all add: deleteChangelist_def split_beta Let_def getDefaultChangelist_def
      split: option.splits)


lemma active_unique:
  assumes "atMostOneActive cls" and "c \<in> set cls" and "cl_isActive c"
    and "x \<in> set cls" and "cl_isActive x"
  shows "x = c"
proof -
  have mem: "c \<in> set (filter cl_isActive cls)" "x \<in> set (filter cl_isActive cls)"
    using assms by simp_all
  then obtain y ys where f: "filter cl_isActive cls = y # ys"
    by (cases "filter cl_isActive cls") auto
  then have "ys = []" using assms(1) by (simp add: atMostOneActive_def)
  then show ?thesis using mem f by simp
qed

lemma find_in_set: "find P xs = Some x \<Longrightarrow> x \<in> set xs \<and> P x"
  by (induction xs) (auto split: if_splits)

text \<open>Deleting the changelist that \<open>getChangelist\<close> found, on the list of changelists:
  the default changelist stays first, and when the deleted changelist was the active one
  no other changelist is active.\<close>

lemma delete_keeps_default:
  assumes "defaultFirst cls" and "find (\<lambda>cl. cl_id cl = i) cls = Some c" and "\<not> cl_isDefault c"
  shows "defaultFirst (filter (\<lambda>cl. cl_id cl \<noteq> i) cls)"
    and "find cl_isDefault (filter (\<lambda>cl. cl_id cl \<noteq> i) cls) = Some (hd cls)"
    and "update_first cl_isDefault f (filter (\<lambda>cl. cl_id cl \<noteq> i) cls)
           = f (hd cls) # filter (\<lambda>cl. cl_id cl \<noteq> i) (tl cls)"
    and "cl_isDefault (hd cls)" and "hd cls \<in> set cls"
proof -
  obtain d rest where cls: "cls = d # rest" and d: "cl_isDefault d"
    and rest: "\<forall>x\<in>set rest. \<not> cl_isDefault x"
    using assms(1) by (cases cls) (auto simp: defaultFirst_def)
  have "cl_id d \<noteq> i" using assms(2,3) cls d by auto
  then show "defaultFirst (filter (\<lambda>cl. cl_id cl \<noteq> i) cls)"
    and "find cl_isDefault (filter (\<lambda>cl. cl_id cl \<noteq> i) cls) = Some (hd cls)"
    and "update_first cl_isDefault f (filter (\<lambda>cl. cl_id cl \<noteq> i) cls)
           = f (hd cls) # filter (\<lambda>cl. cl_id cl \<noteq> i) (tl cls)"
    and "cl_isDefault (hd cls)" and "hd cls \<in> set cls"
    using cls d rest by (simp_all add: defaultFirst_def)
qed

lemma delete_active_leaves_none:
  assumes "atMostOneActive cls" and "find (\<lambda>cl. cl_id cl = i) cls = Some c" and "cl_isActive c"
  shows "filter cl_isActive (filter (\<lambda>cl. cl_id cl \<noteq> i) cls) = []"
proof -
  have c: "c \<in> set cls" "cl_id c = i" using find_in_set [OF assms(2)] by simp_all
  have "\<not> cl_isActive x" if "x \<in> set cls" and "cl_id x \<noteq> i" for x
    using active_unique [OF assms(1) c(1) assms(3) that(1)] that(2) c(2) by auto
  then show ?thesis by (auto simp: filter_empty_conv)
qed

lemma atMostOneActive_filter: "atMostOneActive cls \<Longrightarrow> atMostOneActive (filter P cls)"
proof -
  assume a: "atMostOneActive cls"
  have "length (filter cl_isActive (filter P cls)) \<le> length (filter cl_isActive cls)"
    by (induction cls) auto
  then show ?thesis using a by (simp add: atMostOneActive_def)
qed

text \<open>In a state that satisfies the invariants, deleting the active changelist.\<close>

lemma deleteChangelist_active:
  assumes ok: "registry_ok s" and c: "getChangelist s i = Some c" and nd: "\<not> cl_isDefault c"
    and act: "cl_isActive c" and r: "fst (unshelveEach env (cl_shelvedFiles c) s) = Inr u"
  shows "fst (deleteChangelist env i s) = Inr ()"
    and "changelists (state (snd (deleteChangelist env i s)))
           = (hd (changelists (state s)))\<lparr>cl_isActive := True\<rparr>
               # filter (\<lambda>cl. cl_id cl \<noteq> i) (tl (changelists (state s)))"
    and "activeChangelistId (state (snd (deleteChangelist env i s))) = cl_id (hd (changelists (state s)))"
    and "filter cl_isActive (changelists (state (snd (deleteChangelist env i s))))
           = [(hd (changelists (state s)))\<lparr>cl_isActive := True\<rparr>]"
proof -
  let ?cls = "changelists (state s)"
  have df: "defaultFirst ?cls" and am: "atMostOneActive ?cls"
    using ok by (simp_all add: registry_ok_def)
  have f: "find (\<lambda>cl. cl_id cl = i) ?cls = Some c" using c by (simp add: getChangelist_def)
  note k = delete_keeps_default [OF df f nd]
  note d = deleteChangelist_restore_ok(4) [OF c nd r act k(2)]
  show "fst (deleteChangelist env i s) = Inr ()" using d by simp
  show cls': "changelists (state (snd (deleteChangelist env i s)))
           = (hd ?cls)\<lparr>cl_isActive := True\<rparr> # filter (\<lambda>cl. cl_id cl \<noteq> i) (tl ?cls)"
    using d k(3) by simp
  show "activeChangelistId (state (snd (deleteChangelist env i s))) = cl_id (hd ?cls)"
    using d by simp
  have none: "filter cl_isActive (filter (\<lambda>cl. cl_id cl \<noteq> i) ?cls) = []"
    by (rule delete_active_leaves_none [OF am f act])
  obtain d rest where dr: "?cls = d # rest"
    using df by (cases ?cls) (simp_all add: defaultFirst_def)
  have "filter cl_isActive (filter (\<lambda>cl. cl_id cl \<noteq> i) rest) = []"
    using none unfolding dr by (simp split: if_splits)
  then show "filter cl_isActive (changelists (state (snd (deleteChangelist env i s))))
           = [(hd ?cls)\<lparr>cl_isActive := True\<rparr>]"
    using cls' dr by simp
qed

lemma deleteChangelist_registry_ok:
  assumes ok: "registry_ok s"
  shows "registry_ok (snd (deleteChangelist env i s))"
proof (cases "getChangelist s i")
  case None
  then show ?thesis using ok by (simp add: deleteChangelist_def)
next
  case (Some c)
  let ?cls = "changelists (state s)"
  have df: "defaultFirst ?cls" and am: "atMostOneActive ?cls" and g: "gitReady s"
    using ok by (simp_all add: registry_ok_def)
  have f: "find (\<lambda>cl. cl_id cl = i) ?cls = Some c" using Some by (simp add: getChangelist_def)
  show ?thesis
  proof (cases "cl_isDefault c")
    case True
    then show ?thesis using ok Some by (simp add: deleteChangelist_def)
  next
    case nd: False
    note k = delete_keeps_default [OF df f nd]
    show ?thesis
    proof (cases "fst (unshelveEach env (cl_shelvedFiles c) s)")
      case (Inl e)
      then show ?thesis using ok deleteChangelist_restore_fails [OF Some nd Inl] by simp
    next
      case (Inr u)
      note shape = deleteChangelist_restore_ok [OF Some nd Inr]
      show ?thesis
      proof (cases "cl_isActive c")
        case True
        note a = deleteChangelist_active [OF ok Some nd True Inr]
        obtain d rest where dr: "?cls = d # rest"
          using df by (cases ?cls) (simp_all add: defaultFirst_def)
        have "defaultFirst (changelists (state (snd (deleteChangelist env i s))))"
          using a(2) df unfolding dr by (simp add: defaultFirst_def)
        then show ?thesis using a(4) shape(6) g by (simp add: registry_ok_def atMostOneActive_def)
      next
        case False
        then show ?thesis
          using shape(3) [OF False] shape(6) g k(1) atMostOneActive_filter [OF am]
          by (simp add: registry_ok_def)
      qed
    qed
  qed
qed

lemma ensureSnapshotsDir_fields [simp]:
  "state (snd (ensureSnapshotsDir env s)) = state s"
  "git (snd (ensureSnapshotsDir env s)) = git s"
  "changedFiles (snd (ensureSnapshotsDir env s)) = changedFiles s"
  "workspaceState (snd (ensureSnapshotsDir env s)) = workspaceState s"
  by (simp_all add: ensureSnapshotsDir_def Let_def split: sum.splits)

text \<open>On a store without a record for the repository, \<open>loadState\<close> synthesizes the fresh
  state.\<close>

lemma loadState_fresh:
  assumes "workspaceState s (stateKey env) = None" and "workspaceState s LEGACY_STATE_KEY = None"
  shows "fst (loadState env s) =
           \<lparr>changelists =
              [\<lparr>cl_id = generateId env (draws s), cl_label = ''Default Changelist'',
                cl_shelvedFiles = [], cl_isDefault = True, cl_isActive = True,
                cl_repoPath = Some (repository_path env)\<rparr>],
            activeChangelistId = generateId env (draws s),
            version = STATE_VERSION\<rparr>"
  using assms by (simp add: loadState_def tryMigrateLegacyState_def Let_def)

lemma constructor_fresh:
  assumes "ws (stateKey env) = None" and "ws LEGACY_STATE_KEY = None"
  shows "state (snd (constructor env g f ws)) =
           \<lparr>changelists =
              [\<lparr>cl_id = generateId env 0, cl_label = ''Default Changelist'',
                cl_shelvedFiles = [], cl_isDefault = True, cl_isActive = True,
                cl_repoPath = Some (repository_path env)\<rparr>],
            activeChangelistId = generateId env 0,
            version = STATE_VERSION\<rparr>"
    and "git (snd (constructor env g f ws)) = Some g"
  using assms
  by (simp_all add: constructor_def Let_def split_beta loadState_fresh loadState_def
      tryMigrateLegacyState_def)

lemma constructor_registry_ok:
  assumes "ws (stateKey env) = None" and "ws LEGACY_STATE_KEY = None"
  shows "registry_ok (snd (constructor env g f ws))"
  using constructor_fresh [OF assms, of g f]
  by (simp add: registry_ok_def gitReady_def defaultFirst_def atMostOneActive_def)

lemma same_flags_registry_ok:
  "registry_ok s \<Longrightarrow> same_flags (changelists (state s)) (changelists (state s'))
     \<Longrightarrow> gitReady s' = gitReady s \<Longrightarrow> registry_ok s'"
  using registry_ok_same_flags by blast

lemma state_kept_registry_ok:
  "registry_ok s \<Longrightarrow> state s' = state s \<Longrightarrow> gitReady s' = gitReady s \<Longrightarrow> registry_ok s'"
  by (simp add: registry_ok_def)

lemma shelveFiles_flags2:
  "same_flags (changelists (state s)) (changelists (state (snd (shelveFiles env ps c s))))"
  "gitReady (snd (shelveFiles env ps c s)) = gitReady s"
  using shelveFiles_flags [of s env ps c] by simp_all

lemmas flag_keeping_registry_ok =
  same_flags_registry_ok [OF _ renameChangelist_flags]
  same_flags_registry_ok [OF _ shelveFile_flags]
  same_flags_registry_ok [OF _ shelveFiles_flags2]
  same_flags_registry_ok [OF _ commitChangelist_flags]
  same_flags_registry_ok [OF _ deleteShelvedFile_flags]

lemmas state_keeping_registry_ok =
  state_kept_registry_ok [OF _ unshelveFile_state]
  state_kept_registry_ok [OF _ applyAndStage_state]
  state_kept_registry_ok [OF _ applyAllAndStage_state]
  state_kept_registry_ok [OF _ unshelveAll_state]
  state_kept_registry_ok [OF _ commitWorkingChanges_state]
  state_kept_registry_ok [OF _ revertFile_state]

lemma perform_registry_ok: "registry_ok s \<Longrightarrow> registry_ok (perform env op s)"
  by (cases op)
    (simp_all add: flag_keeping_registry_ok state_keeping_registry_ok
      createChangelist_registry_ok deleteChangelist_registry_ok
      setActiveChangelist_registry_ok importChangelists_registry_ok)

text \<open>Every reachable state satisfies the invariants of the registry.\<close>

lemma reachable_registry_ok: "reachable env s \<Longrightarrow> registry_ok s"
proof (induction rule: reachable.induct)
  case (fresh g f ws s)
  then show ?case using constructor_registry_ok [where ws = ws and env = env and g = g and f = f] by simp
next
  case (call s op)
  then show ?case by (simp add: perform_registry_ok)
next
  case (world s f g)
  then show ?case by (simp add: registry_ok_def gitReady_def)
qed

lemma registry_ok_default:
  assumes "registry_ok s" and "d \<in> set (changelists (state s))" and "cl_isDefault d"
  shows "getChangelist s (cl_id d) = Some d" and "length (filter cl_isDefault (changelists (state s))) = 1"
    and "\<exists>g. git s = Some g"
proof -
  obtain d0 rest where cls: "changelists (state s) = d0 # rest" and d0: "cl_isDefault d0"
    and rest: "\<forall>x\<in>set rest. \<not> cl_isDefault x"
    using assms(1) by (cases "changelists (state s)") (auto simp: registry_ok_def defaultFirst_def)
  have "d = d0" using assms(2,3) cls rest by auto
  then show "getChangelist s (cl_id d) = Some d" using cls by (simp add: getChangelist_def)
  have "filter cl_isDefault rest = []" using rest by (simp add: filter_empty_conv)
  then show "length (filter cl_isDefault (changelists (state s))) = 1" using cls d0 by simp
  show "\<exists>g. git s = Some g" using assms(1) by (auto simp: registry_ok_def gitReady_def)
qed

lemma registry_ok_has_default:
  "registry_ok s \<Longrightarrow> length (filter cl_isDefault (changelists (state s))) = 1"
  by (cases "changelists (state s)")
    (auto simp: registry_ok_def defaultFirst_def filter_empty_conv)

lemma reachable_demoStart: "reachable demoEnv demoStart"
proof -
  have "fst (constructor demoEnv (cleanStatus\<lparr>st_modified := [''a.txt'']\<rparr>)
               [''/repo/a.txt'' \<mapsto> File ''v1''] Map.empty) = Inr ()"
    by code_simp
  then have "constructor demoEnv (cleanStatus\<lparr>st_modified := [''a.txt'']\<rparr>)
               [''/repo/a.txt'' \<mapsto> File ''v1''] Map.empty = (Inr (), demoStart)"
    unfolding demoStart_def by (metis prod.collapse)
  then show ?thesis by (rule reachable.fresh) simp_all
qed

lemma reachable_demoShelved: "reachable demoEnv demoShelved"
  unfolding demoShelved_def demoCreated_def
  by (intro reachable.call reachable_demoStart)

lemma reachable_demoActive: "reachable demoEnv demoActive"
  unfolding demoActive_def by (intro reachable.call reachable_demoShelved)

lemma deleteChangelist_returns:
  assumes "fst (deleteChangelist env i s) = Inr ()" and "getChangelist s i = Some c"
  shows "\<not> cl_isDefault c" and "fst (unshelveEach env (cl_shelvedFiles c) s) = Inr ()"
proof -
  show nd: "\<not> cl_isDefault c" using assms by (auto simp: deleteChangelist_def)
  show "fst (unshelveEach env (cl_shelvedFiles c) s) = Inr ()"
  proof (cases "fst (unshelveEach env (cl_shelvedFiles c) s)")
    case (Inl e)
    then show ?thesis using deleteChangelist_restore_fails [OF assms(2) nd Inl] assms(1) by simp
  next
    case (Inr u)
    then show ?thesis by simp
  qed
qed

subsection \<open>Arrays: \<open>findIndex\<close>, \<open>find\<close> and replacing an element\<close>

lemma findIndex_None: "findIndex P xs = None \<longleftrightarrow> (\<forall>x\<in>set xs. \<not> P x)"
  by (induction xs) auto

lemma find_replaced:
  "findIndex P xs = Some i \<Longrightarrow> P y \<Longrightarrow> find P (xs[i := y]) = Some y"
proof (induction xs arbitrary: i)
  case Nil
  then show ?case by simp
next
  case (Cons x xs)
  then show ?case by (cases i) (auto split: if_splits)
qed

lemma find_appended:
  "findIndex P xs = None \<Longrightarrow> P y \<Longrightarrow> find P (xs @ [y]) = Some y"
  by (induction xs) (auto split: if_splits)

lemma map_replaced:
  "findIndex (\<lambda>x. g x = v) xs = Some i \<Longrightarrow> g y = v \<Longrightarrow> map g (xs[i := y]) = map g xs"
proof (induction xs arbitrary: i)
  case Nil
  then show ?case by simp
next
  case (Cons x xs)
  then show ?case by (cases i) (auto split: if_splits)
qed

lemma find_update_first:
  "find P xs = Some x \<Longrightarrow> P (f x) \<Longrightarrow> find P (update_first P f xs) = Some (f x)"
  by (induction xs) (auto split: if_splits)

lemma update_first_found:
  "find P xs = Some x \<Longrightarrow> update_first P f xs = update_first P (\<lambda>_. f x) xs"
  by (induction xs) (auto split: if_splits)

subsection \<open>What a restore does to the working tree\<close>

lemma fileAt_simps [simp]:
  "fileAt (f(p \<mapsto> File c)) q = (if q = p then Some c else fileAt f q)"
  "fileAt (f(p \<mapsto> Dir)) q = (if q = p then None else fileAt f q)"
  "fileAt (f(p := None)) q = (if q = p then None else fileAt f q)"
  by (simp_all add: fileAt_def)


text \<open>The three branches of \<open>unshelveFileInternal\<close> that do not call git.\<close>

lemma unshelveFileInternal_deleted:
  "sf_status sf = Deleted \<Longrightarrow>
     unshelveFileInternal env sf s =
       (if existsSync (fs s) (restoreTarget env sf) then
          (case unlinkSync (fs s) (restoreTarget env sf) of
             Inl e \<Rightarrow> (Inl e, s)
           | Inr f1 \<Rightarrow> (Inr (), s\<lparr>fs := f1\<rparr>))
        else (Inr (), s))"
  by (simp add: unshelveFileInternal_def restoreTarget_def Let_def)

lemma unshelveFileInternal_content:
  "sf_status sf \<noteq> Deleted \<Longrightarrow> sf_originalContent sf = Some c \<Longrightarrow>
     unshelveFileInternal env sf s =
       (case (if \<not> existsSync (fs s) (path_dirname env (restoreTarget env sf))
              then mkdirSync (fs s) (path_dirname env (restoreTarget env sf))
              else Inr (fs s)) of
          Inl e \<Rightarrow> (Inl e, s)
        | Inr f1 \<Rightarrow>
            (case writeFileSync f1 (restoreTarget env sf) c of
               Inl e \<Rightarrow> (Inl e, s\<lparr>fs := f1\<rparr>)
             | Inr f2 \<Rightarrow> (Inr (), s\<lparr>fs := f2\<rparr>)))"
  unfolding unshelveFileInternal_def restoreTarget_def Let_def by simp

lemma unshelveFileInternal_nothing:
  "sf_status sf \<noteq> Deleted \<Longrightarrow> sf_originalContent sf = None \<Longrightarrow> sf_patch sf = [] \<Longrightarrow>
     unshelveFileInternal env sf s = (Inr (), s)"
  by (simp add: unshelveFileInternal_def Let_def)

lemma not_legacy_cases:
  assumes "\<not> legacyPatch sf"
  obtains "sf_status sf = Deleted"
  | c where "sf_status sf \<noteq> Deleted" and "sf_originalContent sf = Some c"
  | "sf_status sf \<noteq> Deleted" and "sf_originalContent sf = None" and "sf_patch sf = []"
  using assms by (cases "sf_originalContent sf") (auto simp: legacyPatch_def)


text \<open>A restore that returns leaves the captured content in the file at its target, or no
  file there for a deletion-status snapshot.\<close>

lemma unshelveFileInternal_target:
  assumes "fst (unshelveFileInternal env sf s) = Inr ()"
  shows "sf_status sf = Deleted \<Longrightarrow> fileAt (fs (snd (unshelveFileInternal env sf s))) (restoreTarget env sf) = None"
    and "sf_status sf \<noteq> Deleted \<Longrightarrow> sf_originalContent sf = Some c
           \<Longrightarrow> fs (snd (unshelveFileInternal env sf s)) (restoreTarget env sf) = Some (File c)"
proof -
  show "fileAt (fs (snd (unshelveFileInternal env sf s))) (restoreTarget env sf) = None"
    if "sf_status sf = Deleted"
    using assms that
    by (simp add: unshelveFileInternal_deleted existsSync_def unlinkSync_def fileAt_def
        split: option.splits node.splits if_splits)
  show "fs (snd (unshelveFileInternal env sf s)) (restoreTarget env sf) = Some (File c)"
    if "sf_status sf \<noteq> Deleted" and "sf_originalContent sf = Some c"
    using assms that
    by (auto simp: unshelveFileInternal_content existsSync_def mkdirSync_def writeFileSync_def
        split: option.splits node.splits if_splits)
qed

text \<open>Restoring captured content over an existing file succeeds.\<close>

lemma unshelveFileInternal_overwrites:
  assumes "sf_status sf \<noteq> Deleted" and "sf_originalContent sf = Some c"
    and "fs s (restoreTarget env sf) = Some (File c')"
  shows "fst (unshelveFileInternal env sf s) = Inr ()"
  using assms
  by (simp add: unshelveFileInternal_content existsSync_def mkdirSync_def writeFileSync_def
      split: option.splits node.splits if_splits)

lemma normalizePath_idem [simp]: "normalizePath (normalizePath p) = normalizePath p"
  by (simp add: normalizePath_def)

lemma or_else_same [simp]: "or_else (Some r) r = r"
  by (simp add: or_else_def)

subsection \<open>What a successful shelve stores\<close>

lemma shelveFile_stores:
  assumes g: "gitReady s" and f: "map_of (changedFiles s) (normalizePath p) = Some file"
    and c: "getChangelist s i = Some cl" and nd: "\<not> cl_isDefault cl"
    and content: "fs s (workingPath env p) = Some (File content)"
  shows "fst (shelveFile env p i s) = Inr ()"
    and "\<exists>cl' sf. getChangelist (snd (shelveFile env p i s)) i = Some cl'
           \<and> find (\<lambda>f. normalizePath (sf_relativePath f) = normalizePath p) (cl_shelvedFiles cl') = Some sf
           \<and> sf_status sf = cf_status file
           \<and> sf_originalContent sf
                 = (if cf_status file = Deleted then None else Some (utf8_decode env content))
           \<and> sf_patch sf = []
           \<and> restoreTarget env sf = workingPath env p \<and> \<not> cl_isDefault cl'
           \<and> snapshotPaths cl' = (if normalizePath p \<in> set (snapshotPaths cl)
                                   then snapshotPaths cl else snapshotPaths cl @ [normalizePath p])"
proof -
  obtain gh where gh: "git s = Some gh" using g by (auto simp: gitReady_def)
  define sf where "sf =
     \<lparr>sf_relativePath = normalizePath p, sf_status = cf_status file,
      sf_patch = [],
      sf_originalContent =
        (if cf_status file = Deleted then None else Some (utf8_decode env content)),
      sf_headContent =
        (if cf_status file \<noteq> Untracked then
           (case git_show env gh (fs s) [''HEAD:'' @ normalizePath p] of
              Inl msg \<Rightarrow> None
            | Inr c \<Rightarrow> Some c)
         else None),
      sf_shelvedAt = Date_now env (draws s),
      sf_originalPath = cf_originalPath file,
      sf_repoPath = Some (repository_path env)\<rparr>"
  define Q where "Q = (\<lambda>f::ShelvedFile. normalizePath (sf_relativePath f) = normalizePath p)"
  define put where "put = (\<lambda>c::Changelist. c\<lparr>cl_shelvedFiles :=
      (case findIndex Q (cl_shelvedFiles cl) of
         Some k \<Rightarrow> (cl_shelvedFiles c)[k := sf]
       | None \<Rightarrow> cl_shelvedFiles c @ [sf])\<rparr>)"
  have read: "readFileSync (utf8_decode env) (fs s) (workingPath env p)
      = Inr (utf8_decode env content)"
    using content by (simp add: readFileSync_def)
  have ex: "existsSync (fs s) (workingPath env p)"
    using content by (simp add: existsSync_def)
  have cur: "(if cf_status file = Deleted then Inr None
               else if existsSync (fs s)
                         (getAbsolutePathFromRepo env (normalizePath p) (repository_path env))
               then (case readFileSync (utf8_decode env) (fs s)
                           (getAbsolutePathFromRepo env (normalizePath p) (repository_path env)) of
                       Inl e \<Rightarrow> Inl e
                     | Inr c \<Rightarrow> Inr (Some c))
               else Inr None)
            = Inr (if cf_status file = Deleted then None else Some (utf8_decode env content))"
    using read ex by (simp add: workingPath_def)
  show "fst (shelveFile env p i s) = Inr ()"
    using gh f c nd
    by (simp add: shelveFile_def Let_def cur)
  have cls: "changelists (state (snd (shelveFile env p i s)))
      = update_first (\<lambda>c. cl_id c = i) put (changelists (state s))"
    unfolding put_def sf_def Q_def
    using gh f c nd
    by (simp add: shelveFile_def Let_def cur split: option.splits)
  have found: "find (\<lambda>c. cl_id c = i) (changelists (state s)) = Some cl"
    using c by (simp add: getChangelist_def)
  have idc: "cl_id cl = i" using find_in_set [OF found] by simp
  have get: "getChangelist (snd (shelveFile env p i s)) i = Some (put cl)"
    unfolding getChangelist_def cls
    using find_update_first [OF found, of put] idc by (simp add: put_def)
  have Qsf: "Q sf" by (simp add: Q_def sf_def)
  have fnd: "find Q (cl_shelvedFiles (put cl)) = Some sf"
    using Qsf find_replaced [of Q "cl_shelvedFiles cl" _ sf] find_appended [of Q "cl_shelvedFiles cl" sf]
    by (cases "findIndex Q (cl_shelvedFiles cl)") (simp_all add: put_def)
  have paths: "snapshotPaths (put cl) = (if normalizePath p \<in> set (snapshotPaths cl)
                                   then snapshotPaths cl else snapshotPaths cl @ [normalizePath p])"
  proof (cases "findIndex Q (cl_shelvedFiles cl)")
    case None
    then have "normalizePath p \<notin> set (snapshotPaths cl)"
      by (auto simp: findIndex_None Q_def snapshotPaths_def)
    then show ?thesis using None by (simp add: put_def snapshotPaths_def sf_def)
  next
    case (Some k)
    then have "\<not> (\<forall>x\<in>set (cl_shelvedFiles cl). \<not> Q x)"
      using findIndex_None [of Q "cl_shelvedFiles cl"] by simp
    then have mem: "normalizePath p \<in> set (snapshotPaths cl)"
      by (force simp: Q_def snapshotPaths_def)
    have "map (\<lambda>f. normalizePath (sf_relativePath f)) ((cl_shelvedFiles cl)[k := sf])
        = map (\<lambda>f. normalizePath (sf_relativePath f)) (cl_shelvedFiles cl)"
      using Some by (intro map_replaced) (simp_all add: Q_def sf_def)
    then show ?thesis using Some mem by (simp add: put_def snapshotPaths_def)
  qed
  have tgt: "restoreTarget env sf = workingPath env p"
    by (simp add: restoreTarget_def workingPath_def sf_def)
  show "\<exists>cl' sf. getChangelist (snd (shelveFile env p i s)) i = Some cl'
           \<and> find (\<lambda>f. normalizePath (sf_relativePath f) = normalizePath p) (cl_shelvedFiles cl') = Some sf
           \<and> sf_status sf = cf_status file
           \<and> sf_originalContent sf
                 = (if cf_status file = Deleted then None else Some (utf8_decode env content))
           \<and> sf_patch sf = []
           \<and> restoreTarget env sf = workingPath env p \<and> \<not> cl_isDefault cl'
           \<and> snapshotPaths cl' = (if normalizePath p \<in> set (snapshotPaths cl)
                                   then snapshotPaths cl else snapshotPaths cl @ [normalizePath p])"
    using get fnd paths tgt nd unfolding Q_def
    by (intro exI [of _ "put cl"] exI [of _ sf]) (simp add: sf_def put_def)
qed


lemma unshelveFile_found:
  assumes "getChangelist s i = Some cl"
    and "find (\<lambda>f. normalizePath (sf_relativePath f) = normalizePath p) (cl_shelvedFiles cl) = Some sf"
  shows "fst (unshelveFile env i p s) = fst (unshelveFileInternal env sf s)"
    and "fs (snd (unshelveFile env i p s)) = fs (snd (unshelveFileInternal env sf s))"
  using assms by (simp_all add: unshelveFile_def Let_def split_beta split: sum.splits)

lemma getChangelist_state: "state s' = state s \<Longrightarrow> getChangelist s' i = getChangelist s i"
  by (simp add: getChangelist_def)


text \<open>A restore of a snapshot that is not a legacy patch reads and writes the working tree
  only, and repeating it changes nothing more.\<close>

lemma unshelveFileInternal_on_tree:
  assumes "\<not> legacyPatch sf" and "fs s' = fs s"
  shows "fst (unshelveFileInternal env sf s') = fst (unshelveFileInternal env sf s)
    \<and> fs (snd (unshelveFileInternal env sf s')) = fs (snd (unshelveFileInternal env sf s))"
  using assms(1)
proof (cases rule: not_legacy_cases)
  case 1
  then show ?thesis using assms(2)
    by (simp add: unshelveFileInternal_deleted split: sum.splits)
next
  case (2 c)
  then show ?thesis using assms(2)
    by (simp add: unshelveFileInternal_content split: sum.splits)
next
  case 3
  then show ?thesis using assms(2) by (simp add: unshelveFileInternal_nothing)
qed

lemma unshelveFileInternal_twice:
  assumes "\<not> legacyPatch sf"
  shows "fst (unshelveFileInternal env sf (snd (unshelveFileInternal env sf s)))
           = fst (unshelveFileInternal env sf s)
    \<and> fs (snd (unshelveFileInternal env sf (snd (unshelveFileInternal env sf s))))
           = fs (snd (unshelveFileInternal env sf s))"
  using assms
proof (cases rule: not_legacy_cases)
  case 1
  then show ?thesis
    by (auto simp: unshelveFileInternal_deleted existsSync_def unlinkSync_def
        split: option.splits node.splits)
next
  case (2 c)
  then show ?thesis
    by (auto simp: unshelveFileInternal_content existsSync_def mkdirSync_def writeFileSync_def
        split: option.splits node.splits)
next
  case 3
  then show ?thesis by (simp add: unshelveFileInternal_nothing)
qed

subsection \<open>Restoring every snapshot of a changelist\<close>










subsection \<open>At most one snapshot per path\<close>

lemma pathsUnique_update_first:
  assumes "pathsUnique xs"
    and "\<And>c. c \<in> set xs \<Longrightarrow> P c \<Longrightarrow> distinct (snapshotPaths c) \<Longrightarrow> distinct (snapshotPaths (f c))"
  shows "pathsUnique (update_first P f xs)"
  using assms by (induction xs) (auto simp: pathsUnique_def)

lemma pathsUnique_filter: "pathsUnique xs \<Longrightarrow> pathsUnique (filter P xs)"
  by (simp add: pathsUnique_def)

lemma pathsUnique_snoc:
  "pathsUnique xs \<Longrightarrow> distinct (snapshotPaths c) \<Longrightarrow> pathsUnique (xs @ [c])"
  by (simp add: pathsUnique_def)

lemma pathsUnique_cleared:
  "pathsUnique xs \<Longrightarrow> pathsUnique (map (\<lambda>cl. cl\<lparr>cl_isActive := False\<rparr>) xs)"
  by (auto simp: pathsUnique_def snapshotPaths_def)

lemma snapshotPaths_simps [simp]:
  "snapshotPaths (c\<lparr>cl_isActive := a\<rparr>) = snapshotPaths c"
  "snapshotPaths (c\<lparr>cl_label := l\<rparr>) = snapshotPaths c"
  "snapshotPaths (c\<lparr>cl_shelvedFiles := []\<rparr>) = []"
  by (simp_all add: snapshotPaths_def)

text \<open>Storing a snapshot the way \<open>shelveFile\<close> does: replaced where \<open>findIndex\<close> finds its
  path, appended otherwise.\<close>

lemma distinct_put:
  assumes "distinct (snapshotPaths c)" and "normalizePath (sf_relativePath sf) = np"
  shows "distinct (snapshotPaths (c\<lparr>cl_shelvedFiles :=
           (case findIndex (\<lambda>f. normalizePath (sf_relativePath f) = np) (cl_shelvedFiles c) of
              Some k \<Rightarrow> (cl_shelvedFiles c)[k := sf]
            | None \<Rightarrow> cl_shelvedFiles c @ [sf])\<rparr>))"
proof (cases "findIndex (\<lambda>f. normalizePath (sf_relativePath f) = np) (cl_shelvedFiles c)")
  case None
  then have "np \<notin> set (snapshotPaths c)"
    by (auto simp: findIndex_None snapshotPaths_def)
  then show ?thesis using None assms by (simp add: snapshotPaths_def)
next
  case (Some k)
  have "map (\<lambda>f. normalizePath (sf_relativePath f)) ((cl_shelvedFiles c)[k := sf])
      = map (\<lambda>f. normalizePath (sf_relativePath f)) (cl_shelvedFiles c)"
    using Some assms(2) by (intro map_replaced) simp_all
  then show ?thesis using Some assms(1) by (simp add: snapshotPaths_def)
qed

lemma pathsUnique_put:
  assumes "pathsUnique cls" and "find (\<lambda>c. cl_id c = i) cls = Some cl"
    and "normalizePath (sf_relativePath sf) = np"
  shows "pathsUnique (update_first (\<lambda>c. cl_id c = i)
           (\<lambda>c. c\<lparr>cl_shelvedFiles :=
              (case findIndex (\<lambda>f. normalizePath (sf_relativePath f) = np) (cl_shelvedFiles cl) of
                 Some k \<Rightarrow> (cl_shelvedFiles c)[k := sf]
               | None \<Rightarrow> cl_shelvedFiles c @ [sf])\<rparr>) cls)"
proof -
  have "pathsUnique (update_first (\<lambda>c. cl_id c = i)
           (\<lambda>_. cl\<lparr>cl_shelvedFiles :=
              (case findIndex (\<lambda>f. normalizePath (sf_relativePath f) = np) (cl_shelvedFiles cl) of
                 Some k \<Rightarrow> (cl_shelvedFiles cl)[k := sf]
               | None \<Rightarrow> cl_shelvedFiles cl @ [sf])\<rparr>) cls)"
    using assms(1) find_in_set [OF assms(2)] distinct_put [OF _ assms(3), of cl]
    by (intro pathsUnique_update_first) (auto simp: pathsUnique_def)
  then show ?thesis
    using update_first_found [OF assms(2),
        of "\<lambda>c. c\<lparr>cl_shelvedFiles :=
              (case findIndex (\<lambda>f. normalizePath (sf_relativePath f) = np) (cl_shelvedFiles cl) of
                 Some k \<Rightarrow> (cl_shelvedFiles c)[k := sf]
               | None \<Rightarrow> cl_shelvedFiles c @ [sf])\<rparr>"]
    by simp
qed

lemma shelveFile_pathsUnique:
  "pathsUnique (changelists (state s)) \<Longrightarrow>
     pathsUnique (changelists (state (snd (shelveFile env p i s))))"
  unfolding shelveFile_def Let_def
  by (auto simp: getChangelist_def split: option.splits sum.splits intro!: pathsUnique_put)


lemmas unique_seq = seq_inv [where P = "\<lambda>x. pathsUnique (changelists (state x))"]

lemma shelveFiles_pathsUnique:
  "pathsUnique (changelists (state s)) \<Longrightarrow>
     pathsUnique (changelists (state (snd (shelveFiles env ps i s))))"
proof (induction ps arbitrary: s)
  case Nil
  then show ?case by simp
next
  case (Cons p ps)
  have one: "pathsUnique (changelists (state (snd (shelveFile env p i s))))"
    using Cons.prems by (rule shelveFile_pathsUnique)
  show ?case
  proof (cases "fst (shelveFile env p i s)")
    case (Inl e)
    then show ?thesis using one by (simp add: split_beta)
  next
    case (Inr u)
    then show ?thesis using Cons.IH [OF one] by (simp add: split_beta)
  qed
qed

lemma renameChangelist_pathsUnique:
  "pathsUnique (changelists (state s)) \<Longrightarrow>
     pathsUnique (changelists (state (snd (renameChangelist env i l s))))"
  unfolding renameChangelist_def Let_def
  by (auto split: option.splits intro!: pathsUnique_update_first)

lemma createChangelist_pathsUnique:
  "pathsUnique (changelists (state s)) \<Longrightarrow>
     pathsUnique (changelists (state (snd (createChangelist env l s))))"
  by (simp add: createChangelist_changelists pathsUnique_snoc snapshotPaths_def)

lemma setActiveChangelist_pathsUnique:
  "pathsUnique (changelists (state s)) \<Longrightarrow>
     pathsUnique (changelists (state (snd (setActiveChangelist env i s))))"
  unfolding setActiveChangelist_def Let_def
  by (auto split: option.splits intro!: pathsUnique_update_first pathsUnique_cleared)

lemma deleteShelvedFile_pathsUnique:
  "pathsUnique (changelists (state s)) \<Longrightarrow>
     pathsUnique (changelists (state (snd (deleteShelvedFile env i p s))))"
  unfolding deleteShelvedFile_def Let_def
  by (auto split: option.splits intro!: pathsUnique_update_first
      simp: snapshotPaths_def distinct_map_filter)

lemma commitChangelist_pathsUnique:
  "pathsUnique (changelists (state s)) \<Longrightarrow>
     pathsUnique (changelists (state (snd (commitChangelist env i m s))))"
  unfolding commitChangelist_def Let_def
  by (auto split: option.splits intro!: unique_seq pathsUnique_update_first)

lemma deleteChangelist_pathsUnique:
  "pathsUnique (changelists (state s)) \<Longrightarrow>
     pathsUnique (changelists (state (snd (deleteChangelist env i s))))"
  unfolding deleteChangelist_def Let_def getDefaultChangelist_def
  by (auto split: option.splits intro!: unique_seq pathsUnique_update_first pathsUnique_filter)

lemma reachableBy_reachable: "reachableBy env admitted s \<Longrightarrow> reachable env s"
  by (induction rule: reachableBy.induct) (auto intro: reachable.intros)

lemma state_kept_pathsUnique:
  "pathsUnique (changelists (state s)) \<Longrightarrow> state s' = state s
     \<Longrightarrow> pathsUnique (changelists (state s'))"
  by simp

lemma importItems_pathsUnique:
  assumes "pathsUnique (changelists (state s))"
    and "list_all (\<lambda>(label, files).
                      case files of
                        None \<Rightarrow> True
                      | Some shelvedFiles \<Rightarrow>
                          distinct (map (\<lambda>f. normalizePath (sf_relativePath f)) shelvedFiles))
            items"
  shows "pathsUnique (changelists (state (snd (importItems env items s))))"
  using assms
proof (induction items arbitrary: s)
  case Nil
  then show ?case by simp
next
  case (Cons item items)
  obtain label files where item: "item = (label, files)" by (cases item)
  show ?case
  proof (cases files)
    case None
    then show ?thesis using Cons item by simp
  next
    case (Some shelvedFiles)
    show ?thesis
    proof (cases "label = []")
      case True
      then show ?thesis using Cons item Some by simp
    next
      case False
      let ?s1 = "snd (createChangelist env label s)"
      let ?s2 = "set_changelists
                   (update_last (\<lambda>cl. cl\<lparr>cl_shelvedFiles := shelvedFiles\<rparr>)
                      (changelists (state ?s1))) ?s1"
      have d: "distinct (map (\<lambda>f. normalizePath (sf_relativePath f)) shelvedFiles)"
        using Cons.prems(2) item Some by simp
      have "pathsUnique (changelists (state ?s2))"
        using Cons.prems(1) d
        by (simp add: createChangelist_changelists pathsUnique_def snapshotPaths_def)
      then have "pathsUnique (changelists (state (snd (importItems env items ?s2))))"
        using Cons.prems(2) by (intro Cons.IH) simp_all
      then show ?thesis using item Some False by (simp add: split_beta Let_def)
    qed
  qed
qed

lemma importChangelists_pathsUnique:
  "pathsUnique (changelists (state s)) \<Longrightarrow> importsUnique (ImportChangelists data)
     \<Longrightarrow> pathsUnique (changelists (state (snd (importChangelists env data s))))"
  by (auto simp: importChangelists_def split_beta split: option.splits
      intro: importItems_pathsUnique)

lemmas state_keeping_pathsUnique =
  state_kept_pathsUnique [OF _ unshelveFile_state(1)]
  state_kept_pathsUnique [OF _ applyAndStage_state(1)]
  state_kept_pathsUnique [OF _ applyAllAndStage_state(1)]
  state_kept_pathsUnique [OF _ unshelveAll_state(1)]
  state_kept_pathsUnique [OF _ commitWorkingChanges_state(1)]
  state_kept_pathsUnique [OF _ revertFile_state(1)]

lemma perform_pathsUnique:
  "pathsUnique (changelists (state s)) \<Longrightarrow> importsUnique op
     \<Longrightarrow> pathsUnique (changelists (state (perform env op s)))"
  by (cases op)
    (simp_all add: state_keeping_pathsUnique shelveFile_pathsUnique shelveFiles_pathsUnique
      renameChangelist_pathsUnique createChangelist_pathsUnique setActiveChangelist_pathsUnique
      deleteShelvedFile_pathsUnique commitChangelist_pathsUnique deleteChangelist_pathsUnique
      importChangelists_pathsUnique del: importsUnique.simps)

lemma reachableBy_pathsUnique:
  "reachableBy env importsUnique s \<Longrightarrow> pathsUnique (changelists (state s))"
proof (induction rule: reachableBy.induct)
  case (fresh g f ws s)
  then show ?case
    using constructor_fresh(1) [where ws = ws and env = env and g = g and f = f]
    by (simp add: pathsUnique_def snapshotPaths_def)
next
  case (call s op)
  then show ?case by (simp add: perform_pathsUnique)
next
  case (world s f g)
  then show ?case by simp
qed

lemma single_match:
  assumes "distinct (map g xs)" and "find (\<lambda>x. g x = k) xs = Some y"
  shows "filter (\<lambda>x. g x = k) xs = [y]"
  using assms
proof (induction xs)
  case Nil
  then show ?case by simp
next
  case (Cons x xs)
  show ?case
  proof (cases "g x = k")
    case True
    have "g x \<notin> g ` set xs" using Cons.prems(1) by simp
    then have "\<forall>z\<in>set xs. g z \<noteq> k" using True by (metis imageI)
    then have "filter (\<lambda>x. g x = k) xs = []" by (simp add: filter_empty_conv)
    then show ?thesis using True Cons.prems(2) by simp
  next
    case False
    then show ?thesis using Cons by simp
  qed
qed

subsection \<open>Loading and upgrading the stored state\<close>

lemma or_else_idem [simp]: "or_else (Some (or_else a r)) r = or_else a r"
  by (simp add: or_else_def split: option.splits)

lemma upgradeState_idem: "upgradeState env (upgradeState env st) = upgradeState env st"
  by (simp add: upgradeState_def o_def)

lemma upgradeState_keeps: "withoutRepoPaths (upgradeState env st) = withoutRepoPaths st"
  by (simp add: upgradeState_def withoutRepoPaths_def o_def)

lemma upgradeState_repoPaths:
  "map cl_repoPath (changelists (upgradeState env st))
     = map (\<lambda>cl. Some (or_else (cl_repoPath cl) (repository_path env))) (changelists st)"
  "map (\<lambda>cl. map sf_repoPath (cl_shelvedFiles cl)) (changelists (upgradeState env st))
     = map (\<lambda>cl. map (\<lambda>sf. Some (or_else (sf_repoPath sf) (repository_path env)))
                    (cl_shelvedFiles cl)) (changelists st)"
  by (simp_all add: upgradeState_def o_def)

lemma loadState_current:
  "workspaceState s (stateKey env) = Some st \<Longrightarrow> version st = STATE_VERSION
     \<Longrightarrow> loadState env s = (st, s)"
  by (simp add: loadState_def)

lemma loadState_older:
  assumes "workspaceState s (stateKey env) = Some old" and "version old < STATE_VERSION"
    and "tryMigrateLegacyState env s = None"
  shows "loadState env s = (upgradeState env old, saveState env (upgradeState env old) s)"
  using assms by (simp add: loadState_def Let_def)

subsection \<open>The errors of a commit\<close>

lemma fs_error_kinds:
  "mkdirSync f p = Inl e \<Longrightarrow> kind_of e = IOFailure"
  "writeFileSync f p c = Inl e \<Longrightarrow> kind_of e = IOFailure"
  "unlinkSync f p = Inl e \<Longrightarrow> kind_of e = IOFailure"
  by (auto simp: mkdirSync_def writeFileSync_def unlinkSync_def split: option.splits node.splits)

lemma run_git_error:
  "fst (run_git cmd s) = Inl e \<Longrightarrow> kind_of e = IOFailure"
  "fst (run_git cmd s) = Inl e \<Longrightarrow> gitReady s \<Longrightarrow> \<exists>msg. e = GitError msg"
  by (auto simp: run_git_def gitReady_def split: option.splits prod.splits)

lemma run_git_throws: "run_git cmd s = (Inl e, s') \<Longrightarrow> kind_of e = IOFailure"
  using run_git_error(1) [of cmd s e] by simp

lemma unshelveFileInternal_error:
  "fst (unshelveFileInternal env sf s) = Inl e \<Longrightarrow> kind_of e = IOFailure"
  unfolding unshelveFileInternal_def Let_def
  by (auto split: if_splits option.splits sum.splits prod.splits
      dest: fs_error_kinds run_git_throws)

lemma unshelveEach_error:
  "fst (unshelveEach env sfs s) = Inl e \<Longrightarrow> kind_of e = IOFailure"
proof (induction sfs arbitrary: s)
  case Nil
  then show ?case by simp
next
  case (Cons sf sfs)
  obtain r s1 where r: "unshelveFileInternal env sf s = (r, s1)"
    by (cases "unshelveFileInternal env sf s")
  show ?case
  proof (cases r)
    case (Inl e')
    then show ?thesis using Cons.prems r unshelveFileInternal_error [of env sf s e] by simp
  next
    case (Inr u)
    then show ?thesis using Cons.prems r Cons.IH [of s1] by simp
  qed
qed

section \<open>The claims\<close>

subsection \<open>Shelving is non-destructive\<close>

text \<open>C1: \<open>shelveFile(p, c)\<close> is to leave the working tree alone and to write, at most,
  into the snapshot mirror directory. With the mirror switched on and a changelist labelled
  \<open>..\<close> it does not: the mirror path of a snapshot is
  \<open>path.join(repo, ''.smartchangelists'', label, basename)\<close>, the label \<open>..\<close> passes
  \<open>sanitizeLabel\<close> unchanged, and the path is \<open>repo/basename\<close>, a file of the working
  tree. Shelving \<open>sub/a.txt\<close> (content SUB) overwrites \<open>/repo/a.txt\<close> (content TOP)
  with SUB; shelving \<open>b.bin\<close>, whose only byte is FF, rewrites \<open>/repo/b.bin\<close> itself
  with the bytes EF BF BD of the decoded content.\<close>

theorem shelveFile_parent_label_overwrites_working_files:
  "saveSnapshotsToFile mirrorEnv
   \<and> map (\<lambda>cl. (cl_id cl, cl_label cl, cl_isDefault cl)) (changelists (state demoParentLabel))
       = [(''cl-x'', ''Default Changelist'', True), (''cl-xx'', ''..'', False)]
   \<and> map fst (changedFiles demoParentLabel) = [''sub/a.txt'', ''b.bin'']
   \<and> sanitizeLabel ''..'' = ''..''
   \<and> fileAt (fs demoParentLabel) ''/repo/a.txt'' = Some ''TOP''
   \<and> fileAt (fs demoParentLabel) ''/repo/sub/a.txt'' = Some ''SUB''
   \<and> fst (shelveFile mirrorEnv ''sub/a.txt'' ''cl-xx'' demoParentLabel) = Inr ()
   \<and> fileAt (fs (snd (shelveFile mirrorEnv ''sub/a.txt'' ''cl-xx'' demoParentLabel))) ''/repo/a.txt''
       = Some ''SUB''
   \<and> workingPath mirrorEnv ''b.bin'' = ''/repo/b.bin''
   \<and> fileAt (fs demoParentLabel) ''/repo/b.bin'' = Some [CHR 0xFF]
   \<and> fst (shelveFile mirrorEnv ''b.bin'' ''cl-xx'' demoParentLabel) = Inr ()
   \<and> fileAt (fs (snd (shelveFile mirrorEnv ''b.bin'' ''cl-xx'' demoParentLabel))) ''/repo/b.bin''
       = Some [CHR 0xEF, CHR 0xBF, CHR 0xBD]"
  by code_simp

subsection \<open>Round trip of shelve and unshelve\<close>




subsection \<open>One snapshot per path\<close>

text \<open>C3: in every state that is reached without an import that lists a path twice in one
  changelist, each changelist holds at most one snapshot per normalized relative path, and
  every operation other than such an import leaves it so (an import attaches the snapshot
  arrays of its input as they are: the counterexample below).
  In such a state let \<open>p\<close> be a changed file with content \<open>C1\<close> and \<open>c\<close> a non-default
  changelist: \<open>shelveFile(p, c)\<close> returns; when the file has changed to \<open>C2\<close>, a second
  \<open>shelveFile(p, c)\<close> returns too, and then \<open>c\<close> holds exactly one snapshot for \<open>p\<close>,
  the one of the second shelve; whatever the file holds then, \<open>unshelveFile(c, p)\<close> returns
  and leaves what the second shelve captured: the content read from \<open>C2\<close>, and no file where
  the second shelve found the status "deleted" and captured nothing.\<close>

theorem one_snapshot_per_path:
  assumes r: "reachableBy env importsUnique s"
    and f1: "map_of (changedFiles s) (normalizePath p) = Some file1"
    and c1: "fs s (workingPath env p) = Some (File C1)"
    and cl: "getChangelist s c = Some cl" and nd: "\<not> cl_isDefault cl"
    and s1: "state s1 = state (snd (shelveFile env p c s))" and g1: "gitReady s1"
    and f2: "map_of (changedFiles s1) (normalizePath p) = Some file2"
    and c2: "fs s1 (workingPath env p) = Some (File C2)"
    and s2: "state s2 = state (snd (shelveFile env p c s1))"
    and c3: "fs s2 (workingPath env p) = Some (File C3)"
  shows "pathsUnique (changelists (state s))
    \<and> (\<forall>op. importsUnique op \<longrightarrow> pathsUnique (changelists (state (perform env op s))))
    \<and> fst (shelveFile env p c s) = Inr ()
    \<and> fst (shelveFile env p c s1) = Inr ()
    \<and> pathsUnique (changelists (state s2))
    \<and> (\<exists>cl2 sf. getChangelist s2 c = Some cl2
          \<and> filter (\<lambda>f. normalizePath (sf_relativePath f) = normalizePath p) (cl_shelvedFiles cl2)
              = [sf]
          \<and> sf_status sf = cf_status file2
          \<and> sf_originalContent sf
              = (if cf_status file2 = Deleted then None else Some (utf8_decode env C2)))
    \<and> fst (unshelveFile env c p s2) = Inr ()
    \<and> fs (snd (unshelveFile env c p s2)) (workingPath env p)
        = (if cf_status file2 = Deleted then None else Some (File (utf8_decode env C2)))"
proof -
  let ?Q = "\<lambda>f. normalizePath (sf_relativePath f) = normalizePath p"
  have u: "pathsUnique (changelists (state s))"
    by (rule reachableBy_pathsUnique [OF r])
  have g: "gitReady s"
    using reachable_registry_ok [OF reachableBy_reachable [OF r]] by (simp add: registry_ok_def)
  have ok1: "fst (shelveFile env p c s) = Inr ()"
    by (rule shelveFile_stores(1) [OF g f1 cl nd c1])
  obtain cl1 where get1: "getChangelist (snd (shelveFile env p c s)) c = Some cl1"
    and nd1: "\<not> cl_isDefault cl1"
    using shelveFile_stores(2) [OF g f1 cl nd c1] by blast
  have get1': "getChangelist s1 c = Some cl1"
    using get1 getChangelist_state [OF s1] by simp
  have ok2: "fst (shelveFile env p c s1) = Inr ()"
    by (rule shelveFile_stores(1) [OF g1 f2 get1' nd1 c2])
  obtain cl2 sf where get2: "getChangelist (snd (shelveFile env p c s1)) c = Some cl2"
    and fnd: "find ?Q (cl_shelvedFiles cl2) = Some sf"
    and st: "sf_status sf = cf_status file2"
    and oc: "sf_originalContent sf
               = (if cf_status file2 = Deleted then None else Some (utf8_decode env C2))"
    and tgt: "restoreTarget env sf = workingPath env p"
    using shelveFile_stores(2) [OF g1 f2 get1' nd1 c2] by blast
  have get2': "getChangelist s2 c = Some cl2"
    using get2 getChangelist_state [OF s2] by simp
  have "pathsUnique (changelists (state s1))"
    using shelveFile_pathsUnique [OF u, of env p c] s1 by simp
  then have u2: "pathsUnique (changelists (state s2))"
    using shelveFile_pathsUnique [of s1 env p c] s2 by simp
  have "cl2 \<in> set (changelists (state s2))"
    using get2' find_in_set [of "\<lambda>cl. cl_id cl = c" "changelists (state s2)" cl2]
    by (simp add: getChangelist_def)
  then have "distinct (map (\<lambda>f. normalizePath (sf_relativePath f)) (cl_shelvedFiles cl2))"
    using u2 by (simp add: pathsUnique_def snapshotPaths_def)
  then have one: "filter ?Q (cl_shelvedFiles cl2) = [sf]"
    using fnd by (rule single_match)
  have there: "fs s2 (restoreTarget env sf) = Some (File C3)"
    using tgt c3 by simp
  have restore: "fst (unshelveFileInternal env sf s2) = Inr ()
      \<and> fs (snd (unshelveFileInternal env sf s2)) (workingPath env p)
          = (if cf_status file2 = Deleted then None else Some (File (utf8_decode env C2)))"
  proof (cases "cf_status file2 = Deleted")
    case True
    then show ?thesis
      using st there tgt
      by (simp add: unshelveFileInternal_deleted existsSync_def unlinkSync_def)
  next
    case False
    then have nds: "sf_status sf \<noteq> Deleted" and oc': "sf_originalContent sf = Some (utf8_decode env C2)"
      using st oc by simp_all
    have ok: "fst (unshelveFileInternal env sf s2) = Inr ()"
      by (rule unshelveFileInternal_overwrites [OF nds oc' there])
    show ?thesis
      using ok unshelveFileInternal_target(2) [OF ok nds oc'] tgt False by simp
  qed
  have "fst (unshelveFile env c p s2) = Inr ()"
    and "fs (snd (unshelveFile env c p s2)) (workingPath env p)
          = (if cf_status file2 = Deleted then None else Some (File (utf8_decode env C2)))"
    using unshelveFile_found [OF get2' fnd] restore by simp_all
  moreover have "\<exists>cl2 sf. getChangelist s2 c = Some cl2
          \<and> filter ?Q (cl_shelvedFiles cl2) = [sf]
          \<and> sf_status sf = cf_status file2
          \<and> sf_originalContent sf
              = (if cf_status file2 = Deleted then None else Some (utf8_decode env C2))"
    using get2' one st oc by blast
  moreover have "\<forall>op. importsUnique op \<longrightarrow> pathsUnique (changelists (state (perform env op s)))"
    using perform_pathsUnique [OF u] by blast
  ultimately show ?thesis using u ok1 ok2 u2 by simp
qed

theorem one_snapshot_per_path_witness:
  "fs demoCreated (workingPath demoEnv ''a.txt'') = Some (File ''v1'')
   \<and> pathsUnique (changelists (state (perform demoEnv (CreateChangelist ''B'') demoCreated)))
   \<and> fst (shelveFile demoEnv ''a.txt'' ''cl-xx'' demoCreated) = Inr ()
   \<and> fst (shelveFile demoEnv ''a.txt'' ''cl-xx''
            ((snd (shelveFile demoEnv ''a.txt'' ''cl-xx'' demoCreated))
               \<lparr>fs := [''/repo/a.txt'' \<mapsto> File ''v2'']\<rparr>)) = Inr ()
   \<and> fst (unshelveFile demoEnv ''cl-xx'' ''a.txt''
            ((snd (shelveFile demoEnv ''a.txt'' ''cl-xx''
                     ((snd (shelveFile demoEnv ''a.txt'' ''cl-xx'' demoCreated))
                        \<lparr>fs := [''/repo/a.txt'' \<mapsto> File ''v2'']\<rparr>)))
               \<lparr>fs := [''/repo/a.txt'' \<mapsto> File ''v3'']\<rparr>)) = Inr ()
   \<and> fs (snd (unshelveFile demoEnv ''cl-xx'' ''a.txt''
            ((snd (shelveFile demoEnv ''a.txt'' ''cl-xx''
                     ((snd (shelveFile demoEnv ''a.txt'' ''cl-xx'' demoCreated))
                        \<lparr>fs := [''/repo/a.txt'' \<mapsto> File ''v2'']\<rparr>)))
               \<lparr>fs := [''/repo/a.txt'' \<mapsto> File ''v3'']\<rparr>)))
        (workingPath demoEnv ''a.txt'') = Some (File ''v2'')"
proof -
  let ?s1 = "(snd (shelveFile demoEnv ''a.txt'' ''cl-xx'' demoCreated))
               \<lparr>fs := [''/repo/a.txt'' \<mapsto> File ''v2'']\<rparr>"
  let ?s2 = "(snd (shelveFile demoEnv ''a.txt'' ''cl-xx'' ?s1))
               \<lparr>fs := [''/repo/a.txt'' \<mapsto> File ''v3'']\<rparr>"
  have "fst (constructor demoEnv (cleanStatus\<lparr>st_modified := [''a.txt'']\<rparr>)
               [''/repo/a.txt'' \<mapsto> File ''v1''] Map.empty) = Inr ()"
    by code_simp
  then have "constructor demoEnv (cleanStatus\<lparr>st_modified := [''a.txt'']\<rparr>)
               [''/repo/a.txt'' \<mapsto> File ''v1''] Map.empty = (Inr (), demoStart)"
    unfolding demoStart_def by (metis prod.collapse)
  then have "reachableBy demoEnv importsUnique demoStart"
    by (rule reachableBy.fresh) simp_all
  then have r: "reachableBy demoEnv importsUnique demoCreated"
    unfolding demoCreated_def by (intro reachableBy.call) simp_all
  have f1: "map_of (changedFiles demoCreated) (normalizePath ''a.txt'')
      = Some (the (map_of (changedFiles demoCreated) (normalizePath ''a.txt'')))"
    by code_simp
  have c1: "fs demoCreated (workingPath demoEnv ''a.txt'') = Some (File ''v1'')"
    by code_simp
  have cl: "getChangelist demoCreated ''cl-xx'' = Some (the (getChangelist demoCreated ''cl-xx''))"
    by code_simp
  have nd: "\<not> cl_isDefault (the (getChangelist demoCreated ''cl-xx''))"
    by code_simp
  have s1: "state ?s1 = state (snd (shelveFile demoEnv ''a.txt'' ''cl-xx'' demoCreated))"
    by simp
  have g1: "gitReady ?s1" by code_simp
  have f2: "map_of (changedFiles ?s1) (normalizePath ''a.txt'')
      = Some (the (map_of (changedFiles ?s1) (normalizePath ''a.txt'')))"
    by code_simp
  have st2: "cf_status (the (map_of (changedFiles ?s1) (normalizePath ''a.txt''))) \<noteq> Deleted"
    by code_simp
  have c2: "fs ?s1 (workingPath demoEnv ''a.txt'') = Some (File ''v2'')"
    by code_simp
  have s2: "state ?s2 = state (snd (shelveFile demoEnv ''a.txt'' ''cl-xx'' ?s1))"
    by simp
  have c3: "fs ?s2 (workingPath demoEnv ''a.txt'') = Some (File ''v3'')"
    by code_simp
  have valid: "utf8_decode demoEnv ''v2'' = ''v2''"
    by code_simp
  note all = one_snapshot_per_path [OF r f1 c1 cl nd s1 g1 f2 c2 s2 c3]
  have "pathsUnique (changelists (state (perform demoEnv (CreateChangelist ''B'') demoCreated)))"
    using all [THEN conjunct2, THEN conjunct1, rule_format, of "CreateChangelist ''B''"]
    by simp
  then show ?thesis
    using all c1 st2 valid by simp
qed

theorem import_duplicate_paths_counterexample:
  "pathsUnique (changelists (state demoStart))
   \<and> demoDuplicate = perform demoEnv (ImportChangelists duplicateImport) demoStart
   \<and> map (\<lambda>cl. (cl_label cl, snapshotPaths cl)) (changelists (state demoDuplicate))
       = [(''Default Changelist'', []), (''Imported'', [''a.txt'', ''a.txt''])]
   \<and> \<not> pathsUnique (changelists (state demoDuplicate))"
proof -
  have "pathsUnique (changelists (state demoStart))" by code_simp
  moreover have "map (\<lambda>cl. (cl_label cl, snapshotPaths cl)) (changelists (state demoDuplicate))
       = [(''Default Changelist'', []), (''Imported'', [''a.txt'', ''a.txt''])]"
    by code_simp
  moreover have "\<not> pathsUnique (changelists (state demoDuplicate))" by code_simp
  ultimately show ?thesis by (simp add: demoDuplicate_def)
qed

subsection \<open>Restoring twice\<close>

text \<open>C4: for a changelist \<open>c\<close> that holds, for the path \<open>p\<close>, a snapshot that is not a
  legacy patch (it has deletion status, or captured content, or no patch): calling
  \<open>unshelveFile(c, p)\<close> twice in a row gives the same outcome and the same working tree
  both times, and after each call the state, and with it the snapshot in \<open>c\<close>, is as it
  was. (A legacy patch snapshot is handed to \<open>git apply\<close> on every call, and the second
  application need not leave the file as the first one did: the counterexample below.)\<close>

theorem unshelveFile_twice:
  assumes "getChangelist s c = Some cl"
    and "find (\<lambda>f. normalizePath (sf_relativePath f) = normalizePath p) (cl_shelvedFiles cl) = Some sf"
    and "\<not> legacyPatch sf"
  shows "fst (unshelveFile env c p (snd (unshelveFile env c p s))) = fst (unshelveFile env c p s)
    \<and> fs (snd (unshelveFile env c p (snd (unshelveFile env c p s)))) = fs (snd (unshelveFile env c p s))
    \<and> state (snd (unshelveFile env c p s)) = state s
    \<and> state (snd (unshelveFile env c p (snd (unshelveFile env c p s)))) = state s
    \<and> getChangelist (snd (unshelveFile env c p s)) c = Some cl
    \<and> getChangelist (snd (unshelveFile env c p (snd (unshelveFile env c p s)))) c = Some cl"
proof -
  let ?s1 = "snd (unshelveFile env c p s)"
  let ?u = "snd (unshelveFileInternal env sf s)"
  have st1: "state ?s1 = state s" by simp
  have get1: "getChangelist ?s1 c = Some cl"
    using assms(1) getChangelist_state [OF st1] by simp
  have st2: "state (snd (unshelveFile env c p ?s1)) = state s" by simp
  have get2: "getChangelist (snd (unshelveFile env c p ?s1)) c = Some cl"
    using assms(1) getChangelist_state [OF st2] by simp
  have tree1: "fs ?s1 = fs ?u" by (rule unshelveFile_found(2) [OF assms(1,2)])
  note again = unshelveFileInternal_on_tree [OF assms(3) tree1, of env]
  note twice = unshelveFileInternal_twice [OF assms(3), of env s]
  have "fst (unshelveFile env c p ?s1) = fst (unshelveFile env c p s)"
    using unshelveFile_found(1) [OF get1 assms(2), of env] unshelveFile_found(1) [OF assms(1,2), of env]
      again twice by simp
  moreover have "fs (snd (unshelveFile env c p ?s1)) = fs ?s1"
    using unshelveFile_found(2) [OF get1 assms(2), of env] tree1 again twice by simp
  ultimately show ?thesis using st1 st2 get1 get2 by simp
qed

theorem unshelveFile_twice_witness:
  "fst (unshelveFile demoEnv ''cl-xx'' ''a.txt'' demoShelved) = Inr ()
   \<and> fst (unshelveFile demoEnv ''cl-xx'' ''a.txt''
            (snd (unshelveFile demoEnv ''cl-xx'' ''a.txt'' demoShelved))) = Inr ()
   \<and> fs (snd (unshelveFile demoEnv ''cl-xx'' ''a.txt''
            (snd (unshelveFile demoEnv ''cl-xx'' ''a.txt'' demoShelved))))
       = fs (snd (unshelveFile demoEnv ''cl-xx'' ''a.txt'' demoShelved))
   \<and> fs (snd (unshelveFile demoEnv ''cl-xx'' ''a.txt'' demoShelved)) ''/repo/a.txt''
       = Some (File ''v1'')
   \<and> state (snd (unshelveFile demoEnv ''cl-xx'' ''a.txt''
            (snd (unshelveFile demoEnv ''cl-xx'' ''a.txt'' demoShelved)))) = state demoShelved"
proof -
  let ?cl = "the (getChangelist demoShelved ''cl-xx'')"
  let ?sf = "the (find (\<lambda>f. normalizePath (sf_relativePath f) = normalizePath ''a.txt'')
                    (cl_shelvedFiles ?cl))"
  have cl: "getChangelist demoShelved ''cl-xx'' = Some ?cl" by code_simp
  have sf: "find (\<lambda>f. normalizePath (sf_relativePath f) = normalizePath ''a.txt'')
              (cl_shelvedFiles ?cl) = Some ?sf"
    by code_simp
  have nl: "\<not> legacyPatch ?sf" by code_simp
  have first: "fst (unshelveFile demoEnv ''cl-xx'' ''a.txt'' demoShelved) = Inr ()"
    by code_simp
  have content: "fs (snd (unshelveFile demoEnv ''cl-xx'' ''a.txt'' demoShelved)) ''/repo/a.txt''
      = Some (File ''v1'')"
    by code_simp
  show ?thesis
    using unshelveFile_twice [OF cl sf nl, of demoEnv] first content by simp
qed

theorem unshelveFile_twice_legacy_patch_counterexample:
  "map sf_relativePath (cl_shelvedFiles (the (getChangelist demoLegacy ''cl-xx''))) = [''a.txt'']
   \<and> fst (unshelveFile patchingEnv ''cl-xx'' ''a.txt'' demoLegacy) = Inr ()
   \<and> fileAt (fs (snd (unshelveFile patchingEnv ''cl-xx'' ''a.txt'' demoLegacy))) ''/repo/a.txt''
       = Some ''v1+''
   \<and> fst (unshelveFile patchingEnv ''cl-xx'' ''a.txt''
            (snd (unshelveFile patchingEnv ''cl-xx'' ''a.txt'' demoLegacy))) = Inr ()
   \<and> fileAt (fs (snd (unshelveFile patchingEnv ''cl-xx'' ''a.txt''
                  (snd (unshelveFile patchingEnv ''cl-xx'' ''a.txt'' demoLegacy))))) ''/repo/a.txt''
       = Some ''v1++''"
  by code_simp

subsection \<open>The default changelist\<close>

text \<open>C5: in every state reachable from the freshly initialized one, exactly one
  changelist is flagged default. Deleting it fails with "Cannot delete default changelist"
  (an InvalidOperation) and leaves the service as it was. Shelving a currently-changed file
  to it fails with "Cannot save to default changelist" (an InvalidOperation) and leaves the
  service as it was; for a path that is not a changed file, \<open>shelveFile\<close> fails earlier,
  with "File not found in changes" (a NotFound), again without changing anything.\<close>

theorem default_changelist_unique_and_protected:
  assumes "reachable env s"
  shows "length (filter cl_isDefault (changelists (state s))) = 1
    \<and> (\<forall>d\<in>set (changelists (state s)). cl_isDefault d \<longrightarrow>
          deleteChangelist env (cl_id d) s = (Inl CannotDeleteDefault, s)
          \<and> kind_of CannotDeleteDefault = InvalidOperation
          \<and> (\<forall>p. shelveFile env p (cl_id d) s =
                (if map_of (changedFiles s) (normalizePath p) = None
                 then (Inl (FileNotFoundInChanges p), s)
                 else (Inl CannotSaveToDefault, s)))
          \<and> kind_of CannotSaveToDefault = InvalidOperation)"
proof -
  have ok: "registry_ok s" using assms by (rule reachable_registry_ok)
  have "deleteChangelist env (cl_id d) s = (Inl CannotDeleteDefault, s)
      \<and> (\<forall>p. shelveFile env p (cl_id d) s =
                (if map_of (changedFiles s) (normalizePath p) = None
                 then (Inl (FileNotFoundInChanges p), s)
                 else (Inl CannotSaveToDefault, s)))"
    if "d \<in> set (changelists (state s))" and "cl_isDefault d" for d
    using registry_ok_default(1,3) [OF ok that] that(2)
    by (auto simp: deleteChangelist_def shelveFile_def Let_def)
  then show ?thesis using registry_ok_has_default [OF ok] by simp
qed


theorem default_changelist_unique_and_protected_witness:
  "map cl_isDefault (changelists (state demoShelved)) = [True, False]
   \<and> deleteChangelist demoEnv ''cl-x'' demoShelved = (Inl CannotDeleteDefault, demoShelved)
   \<and> shelveFile demoEnv ''a.txt'' ''cl-x'' demoShelved = (Inl CannotSaveToDefault, demoShelved)"
proof -
  have flags: "map cl_isDefault (changelists (state demoShelved)) = [True, False]"
    by code_simp
  have ident: "cl_id (hd (changelists (state demoShelved))) = ''cl-x''"
    by code_simp
  have changed: "map_of (changedFiles demoShelved) (normalizePath ''a.txt'') \<noteq> None"
    by code_simp
  have d: "hd (changelists (state demoShelved)) \<in> set (changelists (state demoShelved))"
    "cl_isDefault (hd (changelists (state demoShelved)))"
    using flags by (cases "changelists (state demoShelved)"; simp)+
  show ?thesis
    using default_changelist_unique_and_protected [OF reachable_demoShelved] d ident changed flags
    by auto
qed

theorem shelve_to_default_unchanged_path_counterexample:
  "reachable demoEnv demoStart
   \<and> map cl_id (filter cl_isDefault (changelists (state demoStart))) = [''cl-x'']
   \<and> map_of (changedFiles demoStart) (normalizePath ''nope.txt'') = None
   \<and> fst (shelveFile demoEnv ''nope.txt'' ''cl-x'' demoStart) = Inl (FileNotFoundInChanges ''nope.txt'')
   \<and> kind_of (FileNotFoundInChanges ''nope.txt'') = NotFound
   \<and> NotFound \<noteq> InvalidOperation"
proof -
  have "map cl_id (filter cl_isDefault (changelists (state demoStart))) = [''cl-x'']"
    by code_simp
  moreover have "map_of (changedFiles demoStart) (normalizePath ''nope.txt'') = None"
    by code_simp
  moreover have "fst (shelveFile demoEnv ''nope.txt'' ''cl-x'' demoStart)
      = Inl (FileNotFoundInChanges ''nope.txt'')"
    by code_simp
  ultimately show ?thesis using reachable_demoStart by simp
qed

subsection \<open>The active changelist\<close>

text \<open>C6: in every state reachable from the freshly initialized one, at most one changelist
  is flagged active. \<open>setActiveChangelist(id)\<close> on a resolvable id returns and leaves
  exactly the changelist it resolved active, with \<open>activeChangelistId\<close> set to the id.
  A \<open>deleteChangelist\<close> of the active changelist that returns leaves the default
  changelist as the only active one, and \<open>activeChangelistId\<close> is the default's id.\<close>

theorem at_most_one_active_changelist:
  assumes "reachable env s"
  shows "length (filter cl_isActive (changelists (state s))) \<le> 1
    \<and> (\<forall>i c. getChangelist s i = Some c \<longrightarrow>
          fst (setActiveChangelist env i s) = Inr ()
          \<and> filter cl_isActive (changelists (state (snd (setActiveChangelist env i s))))
              = [c\<lparr>cl_isActive := True\<rparr>]
          \<and> activeChangelistId (state (snd (setActiveChangelist env i s))) = i)
    \<and> (\<forall>i c. getChangelist s i = Some c \<and> cl_isActive c
               \<and> fst (deleteChangelist env i s) = Inr () \<longrightarrow>
          (\<exists>d. getDefaultChangelist (snd (deleteChangelist env i s)) = Inr d
               \<and> cl_isActive d
               \<and> activeChangelistId (state (snd (deleteChangelist env i s))) = cl_id d
               \<and> filter cl_isActive (changelists (state (snd (deleteChangelist env i s)))) = [d]))"
proof -
  have ok: "registry_ok s" using assms by (rule reachable_registry_ok)
  have one: "length (filter cl_isActive (changelists (state s))) \<le> 1"
    using ok by (simp add: registry_ok_def atMostOneActive_def)
  have activate: "fst (setActiveChangelist env i s) = Inr ()
          \<and> filter cl_isActive (changelists (state (snd (setActiveChangelist env i s))))
              = [c\<lparr>cl_isActive := True\<rparr>]
          \<and> activeChangelistId (state (snd (setActiveChangelist env i s))) = i"
    if "getChangelist s i = Some c" for i c
    using setActiveChangelist_result(1,2,3) [OF that] by simp
  have transfer: "\<exists>d. getDefaultChangelist (snd (deleteChangelist env i s)) = Inr d
               \<and> cl_isActive d
               \<and> activeChangelistId (state (snd (deleteChangelist env i s))) = cl_id d
               \<and> filter cl_isActive (changelists (state (snd (deleteChangelist env i s)))) = [d]"
    if c: "getChangelist s i = Some c" and act: "cl_isActive c"
      and r: "fst (deleteChangelist env i s) = Inr ()" for i c
  proof -
    note ret = deleteChangelist_returns [OF r c]
    note a = deleteChangelist_active [OF ok c ret(1) act ret(2)]
    let ?d0 = "hd (changelists (state s))"
    have d0: "cl_isDefault ?d0"
      using ok by (cases "changelists (state s)") (simp_all add: registry_ok_def defaultFirst_def)
    have "getDefaultChangelist (snd (deleteChangelist env i s)) = Inr (?d0\<lparr>cl_isActive := True\<rparr>)"
      using a(2) d0 by (simp add: getDefaultChangelist_def)
    then show ?thesis using a(3,4) by simp
  qed
  show ?thesis using one activate transfer by blast
qed

theorem at_most_one_active_changelist_witness:
  "map cl_isActive (changelists (state demoActive)) = [False, True]
   \<and> fst (setActiveChangelist demoEnv ''cl-x'' demoActive) = Inr ()
   \<and> map cl_isActive (changelists (state (snd (setActiveChangelist demoEnv ''cl-x'' demoActive))))
       = [True, False]
   \<and> fst (deleteChangelist demoEnv ''cl-xx'' demoActive) = Inr ()
   \<and> map cl_isActive (changelists (state (snd (deleteChangelist demoEnv ''cl-xx'' demoActive))))
       = [True]
   \<and> activeChangelistId (state (snd (deleteChangelist demoEnv ''cl-xx'' demoActive))) = ''cl-x''
   \<and> length (filter cl_isActive (changelists (state demoActive))) \<le> 1"
proof -
  have "map cl_isActive (changelists (state demoActive)) = [False, True]"
    by code_simp
  moreover have "fst (setActiveChangelist demoEnv ''cl-x'' demoActive) = Inr ()"
    by code_simp
  moreover have "map cl_isActive
      (changelists (state (snd (setActiveChangelist demoEnv ''cl-x'' demoActive)))) = [True, False]"
    by code_simp
  moreover have "fst (deleteChangelist demoEnv ''cl-xx'' demoActive) = Inr ()"
    by code_simp
  moreover have "map cl_isActive
      (changelists (state (snd (deleteChangelist demoEnv ''cl-xx'' demoActive)))) = [True]"
    by code_simp
  moreover have "activeChangelistId (state (snd (deleteChangelist demoEnv ''cl-xx'' demoActive)))
      = ''cl-x''"
    by code_simp
  ultimately show ?thesis
    using at_most_one_active_changelist [OF reachable_demoActive] by simp
qed

subsection \<open>Deleting a changelist\<close>




subsection \<open>Migration of the stored state\<close>

text \<open>C8: let the store hold, for the repository, a record \<open>old\<close> of an older schema
  version, and let no legacy record be migrated (none is stored, or the repository is not
  the workspace root). Then \<open>loadState\<close> returns the upgraded record and saves it; the
  upgraded record has the current version; all its other fields, the repository paths apart,
  are those of \<open>old\<close> (labels, flags, ids, and every field of every snapshot); a repository
  path is the old one where that is present and not empty, and the path of the repository
  otherwise. A record of the current version is returned as it is, and nothing is saved.
  Loading again after the upgrade returns the same record, and upgrading an upgraded record
  changes nothing. (Where a legacy record is migrated, the older record is not upgraded but
  replaced: the counterexample below.)\<close>

theorem migration_idempotent_and_content_preserving:
  assumes "workspaceState s (stateKey env) = Some old" and "version old < STATE_VERSION"
    and "tryMigrateLegacyState env s = None"
    and "workspaceState s' (stateKey env) = Some current" and "version current = STATE_VERSION"
  shows "fst (loadState env s) = upgradeState env old
    \<and> workspaceState (snd (loadState env s)) (stateKey env) = Some (upgradeState env old)
    \<and> version (upgradeState env old) = STATE_VERSION
    \<and> withoutRepoPaths (upgradeState env old) = withoutRepoPaths old
    \<and> map cl_repoPath (changelists (upgradeState env old))
        = map (\<lambda>cl. Some (or_else (cl_repoPath cl) (repository_path env))) (changelists old)
    \<and> map (\<lambda>cl. map sf_repoPath (cl_shelvedFiles cl)) (changelists (upgradeState env old))
        = map (\<lambda>cl. map (\<lambda>sf. Some (or_else (sf_repoPath sf) (repository_path env)))
                       (cl_shelvedFiles cl)) (changelists old)
    \<and> loadState env s' = (current, s')
    \<and> loadState env (snd (loadState env s)) = (upgradeState env old, snd (loadState env s))
    \<and> upgradeState env (upgradeState env old) = upgradeState env old"
proof -
  have l: "loadState env s = (upgradeState env old, saveState env (upgradeState env old) s)"
    by (rule loadState_older [OF assms(1,2,3)])
  have v: "version (upgradeState env old) = STATE_VERSION"
    by (simp add: upgradeState_def)
  have again: "loadState env (snd (loadState env s)) = (upgradeState env old, snd (loadState env s))"
    using l v by (intro loadState_current) (simp_all add: saveState_def)
  show ?thesis
    using l v again loadState_current [OF assms(4,5)] upgradeState_keeps [of env old]
      upgradeState_repoPaths [of env old] upgradeState_idem [of env old]
    by (simp add: saveState_def)
qed

theorem migration_idempotent_and_content_preserving_witness:
  "workspaceState (demoStart\<lparr>workspaceState := [stateKey demoEnv \<mapsto> olderRecord]\<rparr>) (stateKey demoEnv)
     = Some olderRecord
   \<and> version olderRecord < STATE_VERSION
   \<and> fst (loadState demoEnv (demoStart\<lparr>workspaceState := [stateKey demoEnv \<mapsto> olderRecord]\<rparr>))
       = upgradeState demoEnv olderRecord
   \<and> withoutRepoPaths (upgradeState demoEnv olderRecord) = withoutRepoPaths olderRecord
   \<and> map cl_repoPath (changelists (upgradeState demoEnv olderRecord))
       = [Some ''/repo'', Some ''/repo'']
   \<and> loadState demoEnv demoStart = (the (workspaceState demoStart (stateKey demoEnv)), demoStart)
   \<and> upgradeState demoEnv (upgradeState demoEnv olderRecord) = upgradeState demoEnv olderRecord"
proof -
  let ?s = "demoStart\<lparr>workspaceState := [stateKey demoEnv \<mapsto> olderRecord]\<rparr>"
  have stored: "workspaceState ?s (stateKey demoEnv) = Some olderRecord"
    by simp
  have older: "version olderRecord < STATE_VERSION"
    by code_simp
  have none: "tryMigrateLegacyState demoEnv ?s = None"
    by code_simp
  have cur: "workspaceState demoStart (stateKey demoEnv)
      = Some (the (workspaceState demoStart (stateKey demoEnv)))"
    by code_simp
  have v: "version (the (workspaceState demoStart (stateKey demoEnv))) = STATE_VERSION"
    by code_simp
  have paths: "map (\<lambda>cl. Some (or_else (cl_repoPath cl) (repository_path demoEnv)))
                 (changelists olderRecord) = [Some ''/repo'', Some ''/repo'']"
    by code_simp
  show ?thesis
    using migration_idempotent_and_content_preserving [OF stored older none cur v]
      stored older paths
    by simp
qed

theorem loadState_legacy_replaces_older_record_counterexample:
  "demoStore (stateKey demoEnv) = Some olderRecord
   \<and> demoStore LEGACY_STATE_KEY = Some legacyRecord
   \<and> version olderRecord = 3
   \<and> map cl_label (changelists olderRecord) = [''Default Changelist'', ''Work'']
   \<and> map (\<lambda>cl. map sf_originalContent (cl_shelvedFiles cl)) (changelists olderRecord)
       = [[], [Some ''mine'']]
   \<and> fst (constructor demoEnv cleanStatus Map.empty demoStore) = Inr ()
   \<and> map cl_label (changelists (state (snd (constructor demoEnv cleanStatus Map.empty demoStore))))
       = [''Default Changelist'']
   \<and> map (\<lambda>cl. map sf_originalContent (cl_shelvedFiles cl))
         (changelists (state (snd (constructor demoEnv cleanStatus Map.empty demoStore))))
       = [[]]
   \<and> workspaceState (snd (constructor demoEnv cleanStatus Map.empty demoStore)) (stateKey demoEnv)
       = Some (state (snd (constructor demoEnv cleanStatus Map.empty demoStore)))
   \<and> map cl_repoPath (changelists olderRecord) = [Some [], None]
   \<and> map cl_repoPath (changelists (upgradeState demoEnv olderRecord))
       = [Some ''/repo'', Some ''/repo'']"
  by code_simp

subsection \<open>A commit that fails after the stash was pushed\<close>

text \<open>C9: let \<open>commitChangelist\<close> on a non-default changelist with snapshots find changed
  files, push the stash, and then throw. The error it throws is the error of the step that
  failed, passed on as it is: an error of the file system or of git, of kind IOFailure and
  never of kind UnrecoverableCommitState, and nothing has been saved to the store. In
  particular, where the restores, \<open>git add\<close> and \<open>git commit\<close> have succeeded, the step
  that failed is \<open>git stash pop\<close>: the call ends as that command does, the error is
  git's, and the changelist has lost its snapshots in memory.\<close>

theorem commitChangelist_failure_after_stash:
  assumes cl: "getChangelist s c = Some cl" and nd: "\<not> cl_isDefault cl"
    and ne: "cl_shelvedFiles cl \<noteq> []" and wc: "changedFiles s \<noteq> []"
    and push: "run_git (\<lambda>g f. git_stash env g f [''push'', ''-m'', ''git-changelists-temp'']) s
                 = (Inr (), s1)"
    and failed: "fst (commitChangelist env c m s) = Inl e"
  shows "kind_of e = IOFailure \<and> kind_of e \<noteq> UnrecoverableCommitState
    \<and> workspaceState (snd (commitChangelist env c m s)) = workspaceState s
    \<and> (unshelveEach env (cl_shelvedFiles cl) s1 = (Inr (), s2)
        \<and> run_git (\<lambda>g f. git_add env g f (map sf_relativePath (cl_shelvedFiles cl))) s2 = (Inr (), s3)
        \<and> run_git (\<lambda>g f. git_commit env g f m) s3 = (Inr (), s4)
        \<longrightarrow> commitChangelist env c m s
              = run_git (\<lambda>g f. git_stash env g f [''pop''])
                  (mutate_changelist c (\<lambda>cl. cl\<lparr>cl_shelvedFiles := []\<rparr>) s4)
            \<and> (\<exists>msg. e = GitError msg)
            \<and> (\<exists>cl'. getChangelist (snd (commitChangelist env c m s)) c = Some cl'
                  \<and> cl_shelvedFiles cl' = []))"
proof -
  let ?files = "cl_shelvedFiles cl"
  let ?add = "\<lambda>g f. git_add env g f (map sf_relativePath ?files)"
  let ?commit = "\<lambda>g f. git_commit env g f m"
  let ?pop = "\<lambda>g f. git_stash env g f [''pop'']"
  let ?clear = "mutate_changelist c (\<lambda>cl. cl\<lparr>cl_shelvedFiles := []\<rparr>)"
  obtain g where g: "git s = Some g"
    using push by (auto simp: run_git_def split: option.splits)
  have ready1: "gitReady s1"
    using push g run_git_other_fields(7) [of "\<lambda>g f. git_stash env g f [''push'', ''-m'', ''git-changelists-temp'']" s]
    by (simp add: gitReady_def)
  have unfold: "commitChangelist env c m s =
      (case unshelveEach env ?files s1 of
         (Inl e, s2) \<Rightarrow> (Inl e, s2)
       | (Inr u, s2) \<Rightarrow>
           (case run_git ?add s2 of
              (Inl e, s3) \<Rightarrow> (Inl e, s3)
            | (Inr u, s3) \<Rightarrow>
                (case run_git ?commit s3 of
                   (Inl e, s4) \<Rightarrow> (Inl e, s4)
                 | (Inr u, s4) \<Rightarrow>
                     (case run_git ?pop (?clear s4) of
                        (Inl e, s6) \<Rightarrow> (Inl e, s6)
                      | (Inr u, s6) \<Rightarrow>
                          (Inr (), fireChangelists (refresh env (saveState env (state s6) s6)))))))"
    using g cl nd ne wc push unfolding commitChangelist_def Let_def
    by (simp split: prod.splits sum.splits)
  have ws1: "workspaceState s1 = workspaceState s"
    using push run_git_other_fields(3) [of "\<lambda>g f. git_stash env g f [''push'', ''-m'', ''git-changelists-temp'']" s]
    by simp
  obtain r2 t2 where r2: "unshelveEach env ?files s1 = (r2, t2)"
    by (cases "unshelveEach env ?files s1")
  have ws2: "workspaceState t2 = workspaceState s"
    using r2 ws1 unshelveEach_other_fields(3) [of env ?files s1] by simp
  have ready2: "gitReady t2"
    using r2 ready1 unshelveEach_other_fields(7) [of env ?files s1] by simp
  obtain r3 t3 where r3: "run_git ?add t2 = (r3, t3)" by (cases "run_git ?add t2")
  have ws3: "workspaceState t3 = workspaceState s"
    using r3 ws2 run_git_other_fields(3) [of ?add t2] by simp
  have ready3: "gitReady t3"
    using r3 ready2 run_git_other_fields(7) [of ?add t2] by simp
  obtain r4 t4 where r4: "run_git ?commit t3 = (r4, t4)" by (cases "run_git ?commit t3")
  have ws4: "workspaceState t4 = workspaceState s"
    using r4 ws3 run_git_other_fields(3) [of ?commit t3] by simp
  have ready4: "gitReady (?clear t4)"
    using r4 ready3 run_git_other_fields(7) [of ?commit t3] by simp
  obtain r6 t6 where r6: "run_git ?pop (?clear t4) = (r6, t6)"
    by (cases "run_git ?pop (?clear t4)")
  have ws6: "workspaceState t6 = workspaceState s"
    using r6 ws4 run_git_other_fields(3) [of ?pop "?clear t4"] by simp
  have kind: "kind_of e = IOFailure \<and> workspaceState (snd (commitChangelist env c m s)) = workspaceState s"
  proof (cases r2)
    case (Inl e2)
    then show ?thesis
      using failed unfold r2 ws2 unshelveEach_error [of env ?files s1 e] by simp
  next
    case u2: (Inr u2)
    show ?thesis
    proof (cases r3)
      case (Inl e3)
      then show ?thesis
        using failed unfold r2 u2 r3 ws3 run_git_throws [of ?add t2 e t3] by simp
    next
      case u3: (Inr u3)
      show ?thesis
      proof (cases r4)
        case (Inl e4)
        then show ?thesis
          using failed unfold r2 u2 r3 u3 r4 ws4 run_git_throws [of ?commit t3 e t4] by simp
      next
        case u4: (Inr u4)
        show ?thesis
        proof (cases r6)
          case (Inl e6)
          then show ?thesis
            using failed unfold r2 u2 r3 u3 r4 u4 r6 ws6
              run_git_throws [of ?pop "?clear t4" e t6] by simp
        next
          case (Inr u6)
          then show ?thesis
            using failed unfold r2 u2 r3 u3 r4 u4 r6 by simp
        qed
      qed
    qed
  qed
  have pop: "commitChangelist env c m s = run_git ?pop (?clear s4)
      \<and> (\<exists>msg. e = GitError msg)
      \<and> (\<exists>cl'. getChangelist (snd (commitChangelist env c m s)) c = Some cl'
            \<and> cl_shelvedFiles cl' = [])"
    if steps: "unshelveEach env ?files s1 = (Inr (), s2)" "run_git ?add s2 = (Inr (), s3)"
      "run_git ?commit s3 = (Inr (), s4)"
  proof -
    obtain r q where rq: "run_git ?pop (?clear s4) = (r, q)"
      by (cases "run_git ?pop (?clear s4)")
    have r: "r = Inl e"
      using failed unfold steps rq by (cases r) simp_all
    have whole: "commitChangelist env c m s = run_git ?pop (?clear s4)"
      using unfold steps rq r by simp
    have "state s4 = state s"
      using push steps run_git_other_fields(1) [of "\<lambda>g f. git_stash env g f [''push'', ''-m'', ''git-changelists-temp'']" s]
        unshelveEach_other_fields(1) [of env ?files s1]
        run_git_other_fields(1) [of ?add s2] run_git_other_fields(1) [of ?commit s3]
      by simp
    then have cls: "changelists (state q)
        = update_first (\<lambda>cl. cl_id cl = c) (\<lambda>cl. cl\<lparr>cl_shelvedFiles := []\<rparr>) (changelists (state s))"
      using rq run_git_other_fields(1) [of ?pop "?clear s4"]
      by (simp add: mutate_changelist_def set_changelists_def)
    have found: "find (\<lambda>cl. cl_id cl = c) (changelists (state s)) = Some cl"
      using cl by (simp add: getChangelist_def)
    have idc: "cl_id cl = c" using find_in_set [OF found] by simp
    have get: "getChangelist q c = Some (cl\<lparr>cl_shelvedFiles := []\<rparr>)"
      unfolding getChangelist_def cls
      using find_update_first [OF found, of "\<lambda>cl. cl\<lparr>cl_shelvedFiles := []\<rparr>"] idc by simp
    have "gitReady s4"
      using ready1 steps unshelveEach_other_fields(7) [of env ?files s1]
        run_git_other_fields(7) [of ?add s2] run_git_other_fields(7) [of ?commit s3]
      by simp
    then have "\<exists>msg. e = GitError msg"
      using run_git_error(2) [of ?pop "?clear s4" e] rq r by simp
    then show ?thesis using whole rq get by simp
  qed
  have "kind_of e \<noteq> UnrecoverableCommitState" using kind by simp
  then show ?thesis using kind pop by blast
qed


theorem commitChangelist_failure_after_stash_witness:
  "fst (run_git (\<lambda>g f. git_stash popFailingEnv g f [''push'', ''-m'', ''git-changelists-temp''])
          demoShelved) = Inr ()
   \<and> fst (commitChangelist popFailingEnv ''cl-xx'' ''msg'' demoShelved)
       = Inl (GitError ''CONFLICT (content)'')
   \<and> kind_of (GitError ''CONFLICT (content)'') = IOFailure
   \<and> workspaceState (snd (commitChangelist popFailingEnv ''cl-xx'' ''msg'' demoShelved))
       = workspaceState demoShelved
   \<and> (\<exists>cl'. getChangelist (snd (commitChangelist popFailingEnv ''cl-xx'' ''msg'' demoShelved)) ''cl-xx''
               = Some cl'
         \<and> cl_shelvedFiles cl' = [])"
proof -
  let ?push = "\<lambda>g f. git_stash popFailingEnv g f [''push'', ''-m'', ''git-changelists-temp'']"
  let ?cl = "the (getChangelist demoShelved ''cl-xx'')"
  let ?s1 = "snd (run_git ?push demoShelved)"
  let ?s2 = "snd (unshelveEach popFailingEnv (cl_shelvedFiles ?cl) ?s1)"
  let ?add = "\<lambda>g f. git_add popFailingEnv g f (map sf_relativePath (cl_shelvedFiles ?cl))"
  let ?s3 = "snd (run_git ?add ?s2)"
  let ?commit = "\<lambda>g f. git_commit popFailingEnv g f ''msg''"
  let ?s4 = "snd (run_git ?commit ?s3)"
  have cl: "getChangelist demoShelved ''cl-xx'' = Some ?cl" by code_simp
  have nd: "\<not> cl_isDefault ?cl" by code_simp
  have ne: "cl_shelvedFiles ?cl \<noteq> []" by code_simp
  have wc: "changedFiles demoShelved \<noteq> []" by code_simp
  have pushed: "fst (run_git ?push demoShelved) = Inr ()" by code_simp
  then have push: "run_git ?push demoShelved = (Inr (), ?s1)"
    by (simp add: prod_eq_iff)
  have "fst (unshelveEach popFailingEnv (cl_shelvedFiles ?cl) ?s1) = Inr ()" by code_simp
  then have restore: "unshelveEach popFailingEnv (cl_shelvedFiles ?cl) ?s1 = (Inr (), ?s2)"
    by (simp add: prod_eq_iff)
  have "fst (run_git ?add ?s2) = Inr ()" by code_simp
  then have add: "run_git ?add ?s2 = (Inr (), ?s3)"
    by (simp add: prod_eq_iff)
  have "fst (run_git ?commit ?s3) = Inr ()" by code_simp
  then have commit: "run_git ?commit ?s3 = (Inr (), ?s4)"
    by (simp add: prod_eq_iff)
  have failed: "fst (commitChangelist popFailingEnv ''cl-xx'' ''msg'' demoShelved)
      = Inl (GitError ''CONFLICT (content)'')"
    by code_simp
  show ?thesis
    using commitChangelist_failure_after_stash [OF cl nd ne wc push failed, of ?s2 ?s3 ?s4]
      pushed failed restore add commit
    by blast
qed

theorem commitChangelist_stash_pop_failure_counterexample:
  "map fst (changedFiles demoShelved) = [''a.txt'']
   \<and> map (\<lambda>cl. (cl_id cl, cl_isDefault cl, length (cl_shelvedFiles cl)))
         (changelists (state demoShelved))
       = [(''cl-x'', True, 0), (''cl-xx'', False, 1)]
   \<and> fst (run_git (\<lambda>g f. git_stash popFailingEnv g f [''push'', ''-m'', ''git-changelists-temp''])
            demoShelved) = Inr ()
   \<and> fst (commitChangelist popFailingEnv ''cl-xx'' ''msg'' demoShelved)
       = Inl (GitError ''CONFLICT (content)'')
   \<and> kind_of (GitError ''CONFLICT (content)'') = IOFailure
   \<and> kind_of (GitError ''CONFLICT (content)'') \<noteq> UnrecoverableCommitState"
  by code_simp

subsection \<open>Discarding a snapshot that is not there\<close>

text \<open>C10: when the changelist id resolves and the changelist holds no snapshot for the
  normalized path \<open>p\<close>, \<open>deleteShelvedFile(id, p)\<close> returns without an error, leaves
  the state (so every snapshot set) and the working tree as they were, persists the state
  under the repository's key and emits one changelists-changed notification.\<close>

theorem deleteShelvedFile_without_snapshot:
  assumes "getChangelist s changelistId = Some changelist"
    and "\<forall>f\<in>set (cl_shelvedFiles changelist).
           normalizePath (sf_relativePath f) \<noteq> normalizePath p"
  shows "fst (deleteShelvedFile env changelistId p s) = Inr ()
    \<and> state (snd (deleteShelvedFile env changelistId p s)) = state s
    \<and> fs (snd (deleteShelvedFile env changelistId p s)) = fs s
    \<and> workspaceState (snd (deleteShelvedFile env changelistId p s)) (stateKey env) = Some (state s)
    \<and> firedChangelists (snd (deleteShelvedFile env changelistId p s)) = Suc (firedChangelists s)"
proof -
  have nf: "find (\<lambda>f. normalizePath (sf_relativePath f) = normalizePath p)
              (cl_shelvedFiles changelist) = None"
    using assms(2) by (auto simp: find_None_iff)
  have keep: "filter (\<lambda>f. normalizePath (sf_relativePath f) \<noteq> normalizePath p)
                (cl_shelvedFiles changelist) = cl_shelvedFiles changelist"
    using assms(2) by (intro filter_no_match) auto
  have same: "update_first (\<lambda>cl. cl_id cl = changelistId)
       (\<lambda>cl. cl\<lparr>cl_shelvedFiles :=
                filter (\<lambda>f. normalizePath (sf_relativePath f) \<noteq> normalizePath p)
                  (cl_shelvedFiles cl)\<rparr>)
       (changelists (state s)) = changelists (state s)"
    using assms(1) keep unfolding getChangelist_def by (intro update_first_unchanged) auto
  show ?thesis
    using assms(1) nf same
    by (simp add: deleteShelvedFile_def Let_def mutate_changelist_def set_changelists_def
        saveState_def fireChangelists_def)
qed

theorem deleteShelvedFile_without_snapshot_witness:
  "map sf_relativePath (cl_shelvedFiles (the (getChangelist demoShelved ''cl-xx''))) = [''a.txt'']
   \<and> fst (deleteShelvedFile demoEnv ''cl-xx'' ''b.txt'' demoShelved) = Inr ()
   \<and> state (snd (deleteShelvedFile demoEnv ''cl-xx'' ''b.txt'' demoShelved)) = state demoShelved
   \<and> firedChangelists (snd (deleteShelvedFile demoEnv ''cl-xx'' ''b.txt'' demoShelved))
       = Suc (firedChangelists demoShelved)"
proof -
  have found: "getChangelist demoShelved ''cl-xx''
      = Some (the (getChangelist demoShelved ''cl-xx''))"
    by code_simp
  have paths: "map sf_relativePath (cl_shelvedFiles (the (getChangelist demoShelved ''cl-xx'')))
      = [''a.txt'']"
    by code_simp
  have absent: "\<forall>f\<in>set (cl_shelvedFiles (the (getChangelist demoShelved ''cl-xx''))).
      normalizePath (sf_relativePath f) \<noteq> normalizePath ''b.txt''"
    by code_simp
  show ?thesis
    using deleteShelvedFile_without_snapshot [OF found absent, of demoEnv] paths
    by simp
qed

end
